theory Spec2Isabelle
  imports Complex_Main "HOL-Library.FSet"
begin

section \<open>The environment of a generation run\<close>

text \<open>
  The generators of the repository are Python functions that read and advance global
  state: the stream of the \<^verbatim>\<open>random\<close> module, the operating system's entropy
  (through \<^verbatim>\<open>uuid.uuid4\<close>), the text service, the name provider and the files.
  The model passes that state explicitly, as a record:
  \<^item> \<open>rng\<close> is the stream of the \<^verbatim>\<open>random\<close> module from the present moment on;
    every call of a sampling primitive takes the next number of it and maps it into
    the range asked for, so a property proved for every stream holds for every
    sequence of draws the generator can deliver;
  \<^item> \<open>mt\<close> is the generator itself: \<^verbatim>\<open>random.seed(s)\<close> restarts the stream at
    \<open>mt s\<close>;
  \<^item> \<open>urandom\<close> is the entropy \<^verbatim>\<open>uuid.uuid4()\<close> reads, as the texts of the
    successive identifiers; it is no part of the seeded stream;
  \<^item> \<open>llm\<close> are the answers of the text service to the successive requests, by
    prompt (\<open>None\<close> when the service is disabled or the request fails);
  \<^item> \<open>faker\<close> are the successive names of the name provider, by the gender asked;
  \<^item> \<open>files\<close> are the text files, by path, as their lines (\<open>None\<close>: no such file);
  \<^item> \<open>fl\<close> is the rounding of the floating-point arithmetic: the number a
    floating-point operation returns for the exact result. It is a parameter: what is
    proved holds for every rounding.
\<close>

record world =
  rng :: "nat \<Rightarrow> nat"
  mt :: "int \<Rightarrow> nat \<Rightarrow> nat"
  urandom :: "nat \<Rightarrow> string"
  llm :: "nat \<Rightarrow> string \<Rightarrow> string option"
  faker :: "nat \<Rightarrow> string option \<Rightarrow> string"
  files :: "string \<Rightarrow> string list option"
  fl :: "rat \<Rightarrow> rat"

datatype error = ValueError | IndexError | FileNotFoundError | OverflowError

text \<open>
  A computation reads the world and either raises or returns a value; both ways it leaves
  a new world behind.
\<close>

type_synonym 'a py = "world \<Rightarrow> (error \<times> world) + ('a \<times> world)"

definition py_return :: "'a \<Rightarrow> 'a py" where
  "py_return x w = Inr (x, w)"

definition py_raise :: "error \<Rightarrow> 'a py" where
  "py_raise e w = Inl (e, w)"

definition py_bind :: "'a py \<Rightarrow> ('a \<Rightarrow> 'b py) \<Rightarrow> 'b py" where
  "py_bind m f w = (case m w of Inl e \<Rightarrow> Inl e | Inr (x, w') \<Rightarrow> f x w')"

text \<open>\<^verbatim>\<open>try: m except Exception: h\<close>\<close>

definition py_try :: "'a py \<Rightarrow> 'a py \<Rightarrow> 'a py" where
  "py_try m h w = (case m w of Inl (e, w') \<Rightarrow> h w' | Inr r \<Rightarrow> Inr r)"

subsection \<open>The primitives of the random module\<close>

definition next_raw :: "nat py" where
  "next_raw w = Inr (rng w 0, w\<lparr>rng := (\<lambda>i. rng w (Suc i))\<rparr>)"

definition set_seed :: "int \<Rightarrow> unit py" where
  "set_seed s w = Inr ((), w\<lparr>rng := mt w s\<rparr>)"

text \<open>\<^verbatim>\<open>random.randint(a, b)\<close>: an integer of \<open>a..b\<close>; an empty range raises.\<close>

definition randint :: "int \<Rightarrow> int \<Rightarrow> int py" where
  "randint a b =
     (if b < a then py_raise ValueError
      else py_bind next_raw (\<lambda>r. py_return (a + int r mod (b - a + 1))))"

text \<open>
  \<^verbatim>\<open>random.random()\<close>: a fraction of \<open>[0, 1)\<close> with 53 bits. A floating-point
  number is the rational it stands for.
\<close>

definition random_unit :: "rat py" where
  "random_unit = py_bind next_raw (\<lambda>r. py_return (of_nat (r mod 2 ^ 53) / 2 ^ 53))"

text \<open>
  The result of a floating-point operation whose exact result is \<open>q\<close>, and the
  conversion of an integer to a floating-point number, which raises for an integer of
  absolute value \<open>2\<^sup>1\<^sup>0\<^sup>2\<^sup>4 - 2\<^sup>9\<^sup>7\<^sup>0\<close> or more (it would round beyond the
  largest floating-point number).
\<close>

definition float_of :: "rat \<Rightarrow> rat py" where
  "float_of q w = Inr (fl w q, w)"

definition float_limit :: int where
  "float_limit = 2 ^ 1024 - 2 ^ 970"

definition float_of_int :: "int \<Rightarrow> rat py" where
  "float_of_int n =
     (if float_limit \<le> \<bar>n\<bar> then py_raise OverflowError else float_of (of_int n))"

text \<open>\<^verbatim>\<open>random.uniform(a, b)\<close> is \<^verbatim>\<open>a + (b - a) * random()\<close>, in floating-point numbers.\<close>

definition uniform :: "rat \<Rightarrow> rat \<Rightarrow> rat py" where
  "uniform a b =
     py_bind (float_of (b - a)) (\<lambda>d.
     py_bind random_unit (\<lambda>u.
     py_bind (float_of (d * u)) (\<lambda>p.
     float_of (a + p))))"

text \<open>\<^verbatim>\<open>random.choice(seq)\<close>: an element of the sequence; an empty one raises.\<close>

definition choice :: "'a list \<Rightarrow> 'a py" where
  "choice xs =
     (if xs = [] then py_raise IndexError
      else py_bind next_raw (\<lambda>r. py_return (xs ! (r mod length xs))))"

text \<open>
  \<^verbatim>\<open>bisect.bisect_right(a, x, lo, hi)\<close>, the binary search of the standard library,
  on a list of integers and a rational key.
\<close>

function bisect :: "int list \<Rightarrow> rat \<Rightarrow> nat \<Rightarrow> nat \<Rightarrow> nat" where
  "bisect a x lo hi =
     (if lo < hi
      then (let mid = (lo + hi) div 2
            in if x < of_int (a ! mid) then bisect a x lo mid else bisect a x (mid + 1) hi)
      else lo)"
  by pat_completeness auto
termination
  by (relation "measure (\<lambda>(a, x, lo, hi). hi - lo)") auto

declare bisect.simps [simp del]

text \<open>
  \<^verbatim>\<open>random.choices(population, weights=weights, k=1)[0]\<close> for two lists of one
  length: the weights are accumulated, the total is converted to a floating-point number
  (\<^verbatim>\<open>cum_weights[-1] + 0.0\<close>, which raises for a total beyond their range), a total
  that is not positive raises, and the element is found by bisection of the running sums
  at the floating-point product \<^verbatim>\<open>random() * total\<close>. The conversion is monotone and
  exact at 0, so \<^verbatim>\<open>total <= 0.0\<close> is decided on the integer.
\<close>

fun accumulate :: "int \<Rightarrow> int list \<Rightarrow> int list" where
  "accumulate acc [] = []"
| "accumulate acc (x # xs) = (acc + x) # accumulate (acc + x) xs"

definition choices1 :: "'a list \<Rightarrow> int list \<Rightarrow> 'a py" where
  "choices1 population weights =
     (let n = length population;
          cum_weights = accumulate 0 weights
      in if length cum_weights \<noteq> n then py_raise ValueError
         else if cum_weights = [] then py_raise IndexError
         else py_bind (float_of_int (last cum_weights)) (\<lambda>total.
                if last cum_weights \<le> 0 then py_raise ValueError
                else py_bind random_unit (\<lambda>u.
                     py_bind (float_of (u * total)) (\<lambda>x.
                     py_return (population ! bisect cum_weights x 0 (n - 1))))))"

text \<open>
  \<^verbatim>\<open>random.shuffle(x)\<close>: for \<open>i\<close> from the last index down to 1, the element at
  \<open>i\<close> is exchanged with the one at a drawn index of \<open>0..i\<close>.
\<close>

fun shuffle_from :: "nat \<Rightarrow> 'a list \<Rightarrow> 'a list py" where
  "shuffle_from 0 xs = py_return xs"
| "shuffle_from (Suc i) xs =
     py_bind next_raw (\<lambda>r.
       let j = r mod (Suc i + 1)
       in shuffle_from i (xs[Suc i := xs ! j, j := xs ! Suc i]))"

definition shuffle :: "'a list \<Rightarrow> 'a list py" where
  "shuffle xs = shuffle_from (length xs - 1) xs"

subsection \<open>Strings\<close>

text \<open>
  Strings are lists of characters. \<^verbatim>\<open>str.strip()\<close> removes the white space of
  both ends, \<^verbatim>\<open>str.rstrip(".")\<close> the full stops of the end, \<^verbatim>\<open>str.replace(old, new)\<close>
  replaces the occurrences of a non-empty \<open>old\<close> from the left, \<^verbatim>\<open>str(n)\<close> writes a
  natural number in decimal.
\<close>

definition is_space :: "char \<Rightarrow> bool" where
  "is_space c \<longleftrightarrow> (of_char c :: nat) \<in> {9, 10, 11, 12, 13, 28, 29, 30, 31, 32}"

definition rstrip_chars :: "(char \<Rightarrow> bool) \<Rightarrow> string \<Rightarrow> string" where
  "rstrip_chars P s = rev (dropWhile P (rev s))"

definition strip :: "string \<Rightarrow> string" where
  "strip s = rstrip_chars is_space (dropWhile is_space s)"

function replace :: "string \<Rightarrow> string \<Rightarrow> string \<Rightarrow> string" where
  "replace old new s =
     (if s = [] \<or> old = [] then s
      else if take (length old) s = old then new @ replace old new (drop (length old) s)
      else hd s # replace old new (tl s))"
  by pat_completeness auto
termination
  by (relation "measure (\<lambda>(old, new, s). length s)") (auto simp: neq_Nil_conv)

declare replace.simps [simp del]

definition digit_char :: "nat \<Rightarrow> char" where
  "digit_char d = char_of (48 + d)"

function str_nat :: "nat \<Rightarrow> string" where
  "str_nat n = (if n < 10 then [digit_char n] else str_nat (n div 10) @ [digit_char (n mod 10)])"
  by pat_completeness auto
termination
  by (relation "measure id") auto

declare str_nat.simps [simp del]

definition lower :: "string \<Rightarrow> string" where
  "lower s =
     map (\<lambda>c. let k = (of_char c :: nat) in if 65 \<le> k \<and> k \<le> 90 then char_of (k + 32) else c) s"

section \<open>utils/random\_utils.py\<close>

text \<open>\<^verbatim>\<open>uuid.uuid4()\<close> reads the entropy of the operating system, not the seeded stream.\<close>

definition uuid4 :: "string py" where
  "uuid4 w = Inr (urandom w 0, w\<lparr>urandom := (\<lambda>i. urandom w (Suc i))\<rparr>)"

definition generate_uuid :: "string option \<Rightarrow> string py" where
  "generate_uuid prefix =
     py_bind uuid4 (\<lambda>uid.
       py_return (case prefix of
                    None \<Rightarrow> uid
                  | Some p \<Rightarrow> if p \<noteq> [] then p @ ''_'' @ uid else uid))"

text \<open>
  A dictionary of weights is the list of its items, in insertion order.
\<close>

definition weighted_choice :: "(string \<times> int) list \<Rightarrow> string py" where
  "weighted_choice choices =
     (if choices = [] then py_raise ValueError
      else let items = map fst choices;
               weights = map snd choices
           in choices1 items weights)"

text \<open>
  The probability is the rational that the source writes: a fraction with 53 bits is below
  the floating-point number written \<^verbatim>\<open>0.5\<close>, \<^verbatim>\<open>0.8\<close> or \<^verbatim>\<open>0.9\<close> exactly when it
  is below the rational.
\<close>

definition random_bool :: "rat \<Rightarrow> bool py" where
  "random_bool probability_true =
     (if \<not> (0 \<le> probability_true \<and> probability_true \<le> 1) then py_raise ValueError
      else py_bind random_unit (\<lambda>u. py_return (u < probability_true)))"

section \<open>utils/llm\_helper.py\<close>

definition random_sentence :: "string py" where
  "random_sentence =
     choice [''Review pending tickets and update progress.'',
             ''Optimize the data pipeline for faster ETL.'',
             ''Schedule design review meeting with UX team.'',
             ''Prepare product roadmap for next sprint.'']"

text \<open>
  \<^verbatim>\<open>generate_text\<close> asks the text service when it is enabled; a disabled service and a
  failing request both end in the fallback sentence.
\<close>

definition ask_llm :: "string \<Rightarrow> string option py" where
  "ask_llm prompt w = Inr (llm w 0 prompt, w\<lparr>llm := (\<lambda>i. llm w (Suc i))\<rparr>)"

definition generate_text :: "string \<Rightarrow> string py" where
  "generate_text prompt =
     py_bind (ask_llm prompt) (\<lambda>answer.
       case answer of
         Some content \<Rightarrow> py_return (strip content)
       | None \<Rightarrow> random_sentence)"

definition load_prompts :: "string \<Rightarrow> string list py" where
  "load_prompts file_path w =
     (case files w file_path of
        None \<Rightarrow> Inl (FileNotFoundError, w)
      | Some ls \<Rightarrow> Inr (map strip (filter (\<lambda>line. strip line \<noteq> []) ls), w))"

section \<open>utils/date\_utils.py\<close>

text \<open>
  A date is the number of its day: \<^verbatim>\<open>_to_date\<close> and \<^verbatim>\<open>_to_str\<close> convert between
  that number and its ISO text (with a year of four digits, as documented), and the
  comparison of two \<^verbatim>\<open>datetime\<close> values is the comparison of the numbers. The dates
  of the calendar are the days from 0001-01-01, day 1, to 9999-12-31, day 3652059.
  Where the source adds days to a date (\<^verbatim>\<open>add_random_offset\<close>, \<^verbatim>\<open>ensure_chronology\<close>)
  a number outside stands for a text that is no date, which \<^verbatim>\<open>_to_date\<close> refuses,
  and adding \<^verbatim>\<open>timedelta(days=n)\<close> raises when the sum is no date. An optional date
  string is a \<open>date option\<close>.
\<close>

type_synonym date = int

record dates =
  created_at :: date
  due_date :: "date option"
  completed_at :: "date option"

definition date_min :: date where
  "date_min = 1"

definition date_max :: date where
  "date_max = 3652059"

definition is_date :: "date \<Rightarrow> bool" where
  "is_date d \<longleftrightarrow> date_min \<le> d \<and> d \<le> date_max"

definition to_date :: "date \<Rightarrow> date py" where
  "to_date d = (if is_date d then py_return d else py_raise ValueError)"

definition add_days :: "date \<Rightarrow> int \<Rightarrow> date py" where
  "add_days d n = (if is_date (d + n) then py_return (d + n) else py_raise OverflowError)"

subsection \<open>Dates written as year, month and day\<close>

text \<open>
  The day number of the date \<open>y-m-d\<close> of the proleptic Gregorian calendar, the number
  of days from the day before 0001-01-01: what \<^verbatim>\<open>_to_date\<close> makes of the text
  \<^verbatim>\<open>YYYY-MM-DD\<close>, up to the time of day, which is always midnight.
\<close>

definition is_leap :: "int \<Rightarrow> bool" where
  "is_leap y \<longleftrightarrow> y mod 4 = 0 \<and> (y mod 100 \<noteq> 0 \<or> y mod 400 = 0)"

definition days_before_year :: "int \<Rightarrow> int" where
  "days_before_year y = (y - 1) * 365 + (y - 1) div 4 - (y - 1) div 100 + (y - 1) div 400"

definition days_in_month :: "int \<Rightarrow> nat \<Rightarrow> int" where
  "days_in_month y m =
     (if m = 2 then (if is_leap y then 29 else 28)
      else if m \<in> {4, 6, 9, 11} then 30 else 31)"

definition days_before_month :: "int \<Rightarrow> nat \<Rightarrow> int" where
  "days_before_month y m = sum_list (map (days_in_month y) [1..<m])"

definition iso_date :: "int \<Rightarrow> nat \<Rightarrow> int \<Rightarrow> date" where
  "iso_date y m d = days_before_year y + days_before_month y m + d"

text \<open>
  In \<^verbatim>\<open>random_date\<close> the sum \<^verbatim>\<open>start_dt + timedelta(days=offset)\<close> is never after
  the later of the two bounds.
\<close>

definition random_date :: "date \<Rightarrow> date \<Rightarrow> int option \<Rightarrow> date py" where
  "random_date start_s end_s seed =
     py_bind (case seed of None \<Rightarrow> py_return () | Some s \<Rightarrow> set_seed s) (\<lambda>_.
       let (start_dt, end_dt) = (if start_s > end_s then (end_s, start_s) else (start_s, end_s));
           delta_days = end_dt - start_dt
       in py_bind (randint 0 delta_days) (\<lambda>offset. py_return (start_dt + offset)))"

definition add_random_offset :: "date \<Rightarrow> int \<Rightarrow> int \<Rightarrow> int option \<Rightarrow> date py" where
  "add_random_offset base_date days_min days_max seed =
     (if days_min < 0 \<or> days_max < days_min then py_raise ValueError
      else py_bind (case seed of None \<Rightarrow> py_return () | Some s \<Rightarrow> set_seed s) (\<lambda>_.
        py_bind (to_date base_date) (\<lambda>base_dt.
        py_bind (randint days_min days_max) (\<lambda>offset_days.
          add_days base_dt offset_days))))"

text \<open>\<^verbatim>\<open>_to_date(s) if s else None\<close>\<close>

definition to_date_opt :: "date option \<Rightarrow> date option py" where
  "to_date_opt s =
     (case s of None \<Rightarrow> py_return None
      | Some d \<Rightarrow> py_bind (to_date d) (\<lambda>x. py_return (Some x)))"

definition ensure_chronology :: "date \<Rightarrow> date option \<Rightarrow> date option \<Rightarrow> dates py" where
  "ensure_chronology created due completed =
     py_bind (to_date created) (\<lambda>created_dt.
     py_bind (to_date_opt due) (\<lambda>due_dt0.
     py_bind (to_date_opt completed) (\<lambda>completed_dt0.
     py_bind
       (case due_dt0 of
          None \<Rightarrow> py_return None
        | Some d \<Rightarrow>
            if d < created_dt
            then py_bind (randint 1 7) (\<lambda>n.
                 py_bind (add_days created_dt n) (\<lambda>x. py_return (Some x)))
            else py_return (Some d))
       (\<lambda>due_dt.
     py_bind
       (case completed_dt0 of
          None \<Rightarrow> py_return None
        | Some c \<Rightarrow>
            let reference_dt = (case due_dt of Some d \<Rightarrow> d | None \<Rightarrow> created_dt)
            in if c < reference_dt
               then py_bind (randint 1 7) (\<lambda>n.
                    py_bind (add_days reference_dt n) (\<lambda>x. py_return (Some x)))
               else py_return (Some c))
       (\<lambda>completed_dt.
     py_return
       \<lparr>created_at = created_dt, due_date = due_dt, completed_at = completed_dt\<rparr>)))))"


text \<open>
  A triple of dates is chronological when the due date, if any, is not before the creation
  and the completion, if any, is not before the due date (or the creation, without one).
\<close>

definition chronological :: "dates \<Rightarrow> bool" where
  "chronological r \<longleftrightarrow>
     (case due_date r of None \<Rightarrow> True | Some d \<Rightarrow> created_at r \<le> d) \<and>
     (case completed_at r of None \<Rightarrow> True
      | Some c \<Rightarrow> (case due_date r of Some d \<Rightarrow> d | None \<Rightarrow> created_at r) \<le> c)"

text \<open>A date that may be absent, and a triple all of whose dates are dates.\<close>

definition is_date_opt :: "date option \<Rightarrow> bool" where
  "is_date_opt s \<longleftrightarrow> (case s of None \<Rightarrow> True | Some d \<Rightarrow> is_date d)"

definition dates_valid :: "dates \<Rightarrow> bool" where
  "dates_valid r \<longleftrightarrow>
     is_date (created_at r) \<and> is_date_opt (due_date r) \<and> is_date_opt (completed_at r)"

section \<open>Concrete runs\<close>

text \<open>
  The value a computation ends with, or the error it raises, without the world it leaves.
\<close>

definition run :: "'a py \<Rightarrow> world \<Rightarrow> error + 'a" where
  "run m w = (case m w of Inl (e, _) \<Rightarrow> Inl e | Inr (x, _) \<Rightarrow> Inr x)"

text \<open>
  A world for the examples: the stream is the given list followed by zeros, from any seed;
  the identifiers are numbered; the text service is disabled; the name provider has one
  name; the only file is the task prompts, with one template; the floating-point
  operations of the examples are exact.
\<close>

definition world_of :: "nat list \<Rightarrow> world" where
  "world_of xs =
     \<lparr>rng = (\<lambda>i. if i < length xs then xs ! i else 0),
      mt = (\<lambda>s i. if i < length xs then xs ! i else 0),
      urandom = (\<lambda>i. str_nat i),
      llm = (\<lambda>_ _. None),
      faker = (\<lambda>_ _. ''Ada Lovelace''),
      files = (\<lambda>p. if p = ''prompts/task_prompts.txt'' then Some [''Implement {feature}.'']
                    else None),
      fl = (\<lambda>q. q)\<rparr>"

section \<open>The entities\<close>

text \<open>
  The generators exchange dictionaries; the model has one record for each entity, with the
  keys of the dictionary the generator emits. A record's fields are global names, so each
  field carries the name of its entity. A key that a consumer reads with \<^verbatim>\<open>.get\<close>
  is optional in the record (the consumer's demo passes dictionaries without it); the
  generator that emits the entity always sets it.
\<close>

record team =
  team_id :: string
  team_department :: "string option"

record user =
  user_id :: string
  user_team_id :: string
  user_name :: string
  user_email :: string
  user_role :: string
  user_is_active :: bool
  user_joined_at :: date

record project =
  project_id :: string
  project_team_id :: string
  project_department :: "string option"
  project_name :: "string option"
  project_description :: string
  project_status :: string
  project_start_date :: date
  project_end_date :: "date option"
  project_created_at :: "date option"

record section_rec =
  section_id :: string
  section_project_id :: string
  section_name :: string
  section_position :: nat
  section_created_at :: "date option"

record task =
  task_id :: string
  task_project_id :: string
  task_assignee_id :: "string option"
  task_name :: "string option"
  task_description :: string
  task_priority :: string
  task_status :: "string option"
  task_completed :: bool
  task_created_at :: "date option"
  task_due_date :: "date option"
  task_completed_at :: "date option"

record subtask =
  subtask_id :: string
  subtask_parent_task_id :: string
  subtask_assignee_id :: "string option"
  subtask_name :: string
  subtask_description :: string
  subtask_status :: string
  subtask_completed :: bool
  subtask_created_at :: date
  subtask_due_date :: "date option"
  subtask_completed_at :: "date option"

text \<open>
  The optional assignee, as the task and the subtask generators draw it:
  \<^verbatim>\<open>if users and random_bool(0.8): assignee_id = random.choice(users)["user_id"]\<close>.
\<close>

definition draw_assignee :: "user list \<Rightarrow> string option py" where
  "draw_assignee users =
     (if users \<noteq> []
      then py_bind (random_bool (8 / 10)) (\<lambda>assigned.
             if assigned then py_bind (choice users) (\<lambda>u. py_return (Some (user_id u)))
             else py_return None)
      else py_return None)"

section \<open>generators/tasks.py\<close>

definition PRIORITY_WEIGHTS :: "(string \<times> int) list" where
  "PRIORITY_WEIGHTS = [(''Low'', 20), (''Medium'', 40), (''High'', 30), (''Critical'', 10)]"

definition tasks_STATUS_WEIGHTS :: "(string \<times> int) list" where
  "tasks_STATUS_WEIGHTS =
     [(''To Do'', 25), (''In Progress'', 35), (''In Review'', 20), (''Done'', 20)]"

definition TECH_WORDS :: "string list" where
  "TECH_WORDS =
     [''authentication'', ''billing'', ''onboarding'', ''analytics'', ''dashboard'',
      ''notifications'', ''permissions'', ''search'', ''performance'', ''reporting'']"

fun render_keys :: "string list \<Rightarrow> string \<Rightarrow> string py" where
  "render_keys [] text = py_return text"
| "render_keys (key # keys) text =
     py_bind (choice TECH_WORDS) (\<lambda>word.
       render_keys keys (replace (''{'' @ key @ ''}'') word text))"

definition render_prompt :: "string \<Rightarrow> string py" where
  "render_prompt template =
     render_keys [''feature'', ''product'', ''service'', ''component'', ''functionality'']
       template"

definition generate_task_name :: "string list \<Rightarrow> string py" where
  "generate_task_name prompts =
     py_bind (choice prompts) (\<lambda>template.
     py_bind (render_prompt template) (\<lambda>name.
     py_return (rstrip_chars (\<lambda>c. c = CHR ''.'') (strip name))))"

definition tasks_generate_description :: "string \<Rightarrow> string \<Rightarrow> string py" where
  "tasks_generate_description pname tname =
     (let prompt = ''Write a one-sentence Asana task description for project ''
                   @ [CHR 0x27] @ pname @ [CHR 0x27] @ '' about ''
                   @ [CHR 0x27] @ tname @ [CHR 0x27] @ ''.''
      in py_try (generate_text prompt)
           (py_return (''Complete the task: '' @ tname @ ''.'')))"

text \<open>The body of the inner loop of \<^verbatim>\<open>generate_tasks\<close>, after the check of the cap.\<close>

definition new_task :: "string list \<Rightarrow> user list \<Rightarrow> string \<Rightarrow> string \<Rightarrow> task py" where
  "new_task prompts users pid pname =
     py_bind (generate_task_name prompts) (\<lambda>name.
     py_bind (weighted_choice tasks_STATUS_WEIGHTS) (\<lambda>status.
     py_bind (weighted_choice PRIORITY_WEIGHTS) (\<lambda>priority.
     py_bind (random_date (iso_date 2021 1 1) (iso_date 2025 1 1) None) (\<lambda>created.
     py_bind (random_date created (iso_date 2025 12 31) None) (\<lambda>due.
     let completed = (status = ''Done'') in
     py_bind (if completed
              then py_bind (random_date due (iso_date 2025 12 31) None) (\<lambda>d. py_return (Some d))
              else py_return None) (\<lambda>completed_date.
     py_bind (ensure_chronology created (Some due) completed_date) (\<lambda>ds.
     py_bind (draw_assignee users) (\<lambda>assignee.
     py_bind (generate_uuid (Some ''task'')) (\<lambda>tid.
     py_bind (tasks_generate_description pname name) (\<lambda>description.
     py_return
       \<lparr>task_id = tid, task_project_id = pid, task_assignee_id = assignee,
        task_name = Some name, task_description = description, task_priority = priority,
        task_status = Some status, task_completed = completed,
        task_created_at = Some (created_at ds), task_due_date = due_date ds,
        task_completed_at = completed_at ds\<rparr>))))))))))"

text \<open>
  The inner loop: \<open>n\<close> rounds are left for the project. It ends with the tasks and with
  whether the cap was reached (the \<^verbatim>\<open>return tasks\<close> inside the loops).
\<close>

fun tasks_for_project ::
  "string list \<Rightarrow> user list \<Rightarrow> int \<Rightarrow> string \<Rightarrow> string \<Rightarrow> nat \<Rightarrow> task list
   \<Rightarrow> (bool \<times> task list) py" where
  "tasks_for_project prompts users total_task_limit pid pname 0 tasks =
     py_return (False, tasks)"
| "tasks_for_project prompts users total_task_limit pid pname (Suc n) tasks =
     (if int (length tasks) \<ge> total_task_limit then py_return (True, tasks)
      else py_bind (new_task prompts users pid pname) (\<lambda>t.
             tasks_for_project prompts users total_task_limit pid pname n (tasks @ [t])))"

fun tasks_for_projects ::
  "string list \<Rightarrow> user list \<Rightarrow> int \<Rightarrow> int \<Rightarrow> project list \<Rightarrow> task list \<Rightarrow> task list py" where
  "tasks_for_projects prompts users total_task_limit base_tasks_per_project [] tasks =
     py_return tasks"
| "tasks_for_projects prompts users total_task_limit base_tasks_per_project (p # ps) tasks =
     (let pid = project_id p;
          pname = (case project_name p of None \<Rightarrow> ''Unnamed Project'' | Some n \<Rightarrow> n)
      in py_bind (randint (max 20 (base_tasks_per_project div 2))
                          (min 150 (base_tasks_per_project * 2))) (\<lambda>num_tasks.
         py_bind (tasks_for_project prompts users total_task_limit pid pname
                    (nat num_tasks) tasks) (\<lambda>(reached, tasks').
         if reached then py_return tasks'
         else tasks_for_projects prompts users total_task_limit base_tasks_per_project
                ps tasks')))"

definition generate_tasks :: "project list \<Rightarrow> user list \<Rightarrow> int \<Rightarrow> task list py" where
  "generate_tasks projects users total_task_limit =
     (if projects = [] then py_raise ValueError
      else py_bind (set_seed 42) (\<lambda>_.
           py_bind (load_prompts ''prompts/task_prompts.txt'') (\<lambda>prompts.
           let base_tasks_per_project =
                 max 1 (total_task_limit div max 1 (int (length projects)))
           in tasks_for_projects prompts users total_task_limit base_tasks_per_project
                projects [])))"

section \<open>generators/subtasks.py\<close>

definition subtasks_STATUS_WEIGHTS :: "(string \<times> int) list" where
  "subtasks_STATUS_WEIGHTS = [(''To Do'', 35), (''In Progress'', 30), (''Done'', 35)]"

definition FALLBACK_SUBTASK_NAMES :: "string list" where
  "FALLBACK_SUBTASK_NAMES =
     [''Write unit tests'', ''Review PR changes'', ''Document feature behavior'',
      ''Deploy to staging'', ''Conduct code review'', ''Fix bug reports'',
      ''Prepare release notes'', ''Sync with QA'', ''Validate integration'']"

definition generate_subtask_name :: "string py" where
  "generate_subtask_name = choice FALLBACK_SUBTASK_NAMES"

definition subtasks_generate_description :: "string \<Rightarrow> string \<Rightarrow> string py" where
  "subtasks_generate_description parent_name sname =
     (let prompt = ''Write a short Asana subtask description for ''
                   @ [CHR 0x27] @ sname @ [CHR 0x27] @ '' related to parent task ''
                   @ [CHR 0x27] @ parent_name @ [CHR 0x27] @ ''.''
      in py_try (generate_text prompt)
           (py_return (''Subtask to '' @ lower sname @ '' for parent task: ''
                       @ parent_name @ ''.'')))"

text \<open>The body of the inner loop of \<^verbatim>\<open>generate_subtasks\<close>.\<close>

definition new_subtask ::
  "user list \<Rightarrow> string \<Rightarrow> string \<Rightarrow> string \<Rightarrow> date \<Rightarrow> date \<Rightarrow> subtask py" where
  "new_subtask users parent_id parent_status parent_name parent_created parent_due =
     py_bind (if parent_status = ''Done'' then py_return ''Done''
              else weighted_choice subtasks_STATUS_WEIGHTS) (\<lambda>status.
     py_bind (random_date parent_created parent_due None) (\<lambda>created.
     py_bind (random_date created parent_due None) (\<lambda>due.
     let completed = (status = ''Done'') in
     py_bind (if completed
              then py_bind (random_date created due None) (\<lambda>d. py_return (Some d))
              else py_return None) (\<lambda>completed_date.
     py_bind (ensure_chronology created (Some due) completed_date) (\<lambda>ds.
     py_bind (draw_assignee users) (\<lambda>assignee.
     py_bind generate_subtask_name (\<lambda>name.
     py_bind (generate_uuid (Some ''sub'')) (\<lambda>sid.
     py_bind (subtasks_generate_description parent_name name) (\<lambda>description.
     py_return
       \<lparr>subtask_id = sid, subtask_parent_task_id = parent_id,
        subtask_assignee_id = assignee, subtask_name = name,
        subtask_description = description, subtask_status = status,
        subtask_completed = completed, subtask_created_at = created_at ds,
        subtask_due_date = due_date ds, subtask_completed_at = completed_at ds\<rparr>)))))))))"

fun subtasks_for_parent ::
  "user list \<Rightarrow> string \<Rightarrow> string \<Rightarrow> string \<Rightarrow> date \<Rightarrow> date \<Rightarrow> nat \<Rightarrow> subtask list
   \<Rightarrow> subtask list py" where
  "subtasks_for_parent users parent_id parent_status parent_name parent_created parent_due
     0 subtasks = py_return subtasks"
| "subtasks_for_parent users parent_id parent_status parent_name parent_created parent_due
     (Suc n) subtasks =
     py_bind (new_subtask users parent_id parent_status parent_name parent_created parent_due)
       (\<lambda>s. subtasks_for_parent users parent_id parent_status parent_name parent_created
               parent_due n (subtasks @ [s]))"

text \<open>\<^verbatim>\<open>[task for task in tasks if random_bool(0.5)]\<close>\<close>

fun select_tasks :: "task list \<Rightarrow> task list py" where
  "select_tasks [] = py_return []"
| "select_tasks (t # ts) =
     py_bind (random_bool (1 / 2)) (\<lambda>chosen.
     py_bind (select_tasks ts) (\<lambda>rest.
     py_return (if chosen then t # rest else rest)))"

fun subtasks_for_parents :: "user list \<Rightarrow> task list \<Rightarrow> subtask list \<Rightarrow> subtask list py" where
  "subtasks_for_parents users [] subtasks = py_return subtasks"
| "subtasks_for_parents users (parent # parents) subtasks =
     (let parent_status = (case task_status parent of None \<Rightarrow> ''To Do'' | Some s \<Rightarrow> s);
          parent_name = (case task_name parent of None \<Rightarrow> ''Parent Task'' | Some n \<Rightarrow> n)
      in case (task_created_at parent, task_due_date parent) of
           (Some parent_created, Some parent_due) \<Rightarrow>
             (let max_subtasks = (if parent_status = ''Done'' then 2 else 5)
              in py_bind (randint 1 max_subtasks) (\<lambda>num_subtasks.
                 py_bind (subtasks_for_parent users (task_id parent) parent_status parent_name
                            parent_created parent_due (nat num_subtasks) subtasks)
                   (\<lambda>subtasks'. subtasks_for_parents users parents subtasks')))
         | _ \<Rightarrow> subtasks_for_parents users parents subtasks)"

definition generate_subtasks :: "task list \<Rightarrow> user list \<Rightarrow> subtask list py" where
  "generate_subtasks tasks users =
     (if tasks = [] then py_return []
      else py_bind (set_seed 42) (\<lambda>_.
           py_bind (select_tasks tasks) (\<lambda>selected_tasks.
           subtasks_for_parents users selected_tasks [])))"

section \<open>scrapers/company\_scraper.py and scrapers/names\_scraper.py\<close>

definition DEPARTMENTS :: "string list" where
  "DEPARTMENTS =
     [''Engineering'', ''Design'', ''Marketing'', ''Sales'', ''Customer Success'',
      ''Product'', ''HR'', ''Finance'', ''Support'', ''Operations'']"

definition get_departments :: "string list" where
  "get_departments = DEPARTMENTS"

definition ROLE_MAP :: "(string \<times> string list) list" where
  "ROLE_MAP =
     [(''Engineering'', [''Backend Developer'', ''Frontend Developer'', ''DevOps Engineer'',
                         ''QA Analyst'', ''Platform Engineer'', ''Mobile Developer'']),
      (''Marketing'', [''SEO Specialist'', ''Content Strategist'', ''Growth Analyst'',
                       ''Marketing Manager'', ''Campaign Manager'']),
      (''Sales'', [''Account Executive'', ''Business Development Rep'', ''Sales Manager'',
                   ''Sales Operations Analyst'']),
      (''Product'', [''Product Manager'', ''Product Designer'',
                     ''Technical Product Manager'', ''UX Researcher'']),
      (''HR'', [''Recruiter'', ''HR Coordinator'', ''People Operations Manager'',
                ''Talent Partner'']),
      (''Finance'', [''Financial Analyst'', ''Accountant'', ''Finance Manager'',
                     ''Revenue Operations Analyst'']),
      (''Customer Success'', [''Customer Success Manager'', ''Onboarding Specialist'',
                              ''Support Analyst'', ''Account Manager'']),
      (''Operations'', [''Operations Manager'', ''Business Operations Analyst'',
                        ''Program Manager''])]"

definition DOMAINS :: "string list" where
  "DOMAINS = [''.com'', ''.io'', ''.co'', ''.ai'', ''.tech'']"

definition is_letter :: "char \<Rightarrow> bool" where
  "is_letter c \<longleftrightarrow> (let k = (of_char c :: nat) in (65 \<le> k \<and> k \<le> 90) \<or> (97 \<le> k \<and> k \<le> 122))"

text \<open>\<^verbatim>\<open>str.split()\<close>: the maximal runs without white space.\<close>

function split_ws :: "string \<Rightarrow> string list" where
  "split_ws s =
     (case dropWhile is_space s of
        [] \<Rightarrow> []
      | c # cs \<Rightarrow> takeWhile (\<lambda>x. \<not> is_space x) (c # cs)
                 # split_ws (dropWhile (\<lambda>x. \<not> is_space x) (c # cs)))"
  by pat_completeness auto
termination
proof (relation "measure length", goal_cases)
  case 1
  show ?case by simp
next
  case (2 s c cs)
  have "\<not> is_space c"
    using 2 by (metis hd_dropWhile list.sel(1) list.distinct(1))
  then have "length (dropWhile (\<lambda>x. \<not> is_space x) (c # cs)) \<le> length cs"
    by (simp add: length_dropWhile_le)
  also have "length cs < length (dropWhile is_space s)"
    using 2 by simp
  also have "\<dots> \<le> length s"
    by (rule length_dropWhile_le)
  finally show ?case by simp
qed

declare split_ws.simps [simp del]

text \<open>
  \<^verbatim>\<open>get_fake_name\<close>: the name of the provider for the gender, without the characters
  outside ASCII, stripped.
\<close>

definition get_fake_name :: "string option \<Rightarrow> string py" where
  "get_fake_name gender w =
     Inr (strip (filter (\<lambda>c. (of_char c :: nat) < 128) (faker w 0 gender)),
          w\<lparr>faker := (\<lambda>i. faker w (Suc i))\<rparr>)"

definition get_email_from_name :: "string \<Rightarrow> string \<Rightarrow> string py" where
  "get_email_from_name name company =
     (let clean_name = strip (lower (filter (\<lambda>c. is_letter c \<or> c = CHR '' '') name));
          parts = split_ws clean_name
      in py_bind (if length parts \<ge> 2 then py_return (hd parts @ ''.'' @ last parts)
                  else if parts = [] then py_raise IndexError
                  else py_return (hd parts)) (\<lambda>local_part.
         let domain = lower (filter is_letter company)
         in py_bind (choice DOMAINS) (\<lambda>tld.
            py_return (local_part @ ''@'' @ domain @ tld))))"

definition get_roles :: "string option \<Rightarrow> string list" where
  "get_roles department =
     (case department of
        Some d \<Rightarrow> (case (if d \<noteq> [] then map_of ROLE_MAP d else None) of
                     Some roles \<Rightarrow> roles
                   | None \<Rightarrow> concat (map snd ROLE_MAP))
      | None \<Rightarrow> concat (map snd ROLE_MAP))"

definition get_random_role :: "string option \<Rightarrow> string py" where
  "get_random_role department = choice (get_roles department)"

text \<open>The profile, as the triple of its name, email and role.\<close>

definition generate_user_profile :: "string \<Rightarrow> string option \<Rightarrow> (string \<times> string \<times> string) py" where
  "generate_user_profile company department =
     py_bind (choice [Some ''male'', Some ''female'', None]) (\<lambda>gender.
     py_bind (get_fake_name gender) (\<lambda>name.
     py_bind (get_email_from_name name company) (\<lambda>email.
     py_bind (get_random_role department) (\<lambda>role.
     py_return (name, email, role)))))"

section \<open>generators/users.py\<close>

text \<open>
  \<^verbatim>\<open>email.split("@", 1)\<close>, unpacked into two names: the parts before and after the
  first \<open>@\<close>; without an \<open>@\<close> the unpacking raises.
\<close>

definition split_email :: "string \<Rightarrow> (string \<times> string) py" where
  "split_email email =
     (if CHR ''@'' \<in> set email
      then py_return (takeWhile (\<lambda>c. c \<noteq> CHR ''@'') email,
                      tl (dropWhile (\<lambda>c. c \<noteq> CHR ''@'') email))
      else py_raise ValueError)"

text \<open>The form of an email with the counter in its local part.\<close>

definition numbered_email :: "string \<Rightarrow> string \<Rightarrow> nat \<Rightarrow> string" where
  "numbered_email base_local domain counter =
     base_local @ ''+'' @ str_nat counter @ ''@'' @ domain"

text \<open>
  The loop that makes an email unique, \<^verbatim>\<open>while unique_email in seen_emails\<close>,
  adds one to the counter and takes the numbered form of the email in each round. It
  ends: the numbered forms of an email are pairwise different and the set of seen emails
  is finite.
\<close>

lemma digit_char_inj:
  assumes "a < 10" and "b < 10" and "digit_char a = digit_char b"
  shows "a = b"
proof -
  have "(of_char (digit_char a) :: nat) = of_char (digit_char b)"
    using assms(3) by simp
  then have "(48 + a) mod 256 = (48 + b) mod 256"
    by (simp add: digit_char_def)
  with assms(1,2) show ?thesis by simp
qed

lemma str_nat_nonempty: "str_nat n \<noteq> []"
  by (subst str_nat.simps) simp

lemma str_nat_inj: "str_nat n = str_nat m \<Longrightarrow> n = m"
proof (induction n arbitrary: m rule: str_nat.induct)
  case (1 n)
  show ?case
  proof (cases "n < 10")
    case True
    then have n: "str_nat n = [digit_char n]" by (subst str_nat.simps) simp
    show ?thesis
    proof (cases "m < 10")
      case m: True
      then have "str_nat m = [digit_char m]" by (subst str_nat.simps) simp
      with n 1(2) True m show ?thesis by (simp add: digit_char_inj)
    next
      case m: False
      then have "str_nat m = str_nat (m div 10) @ [digit_char (m mod 10)]"
        by (subst str_nat.simps) simp
      with n 1(2) show ?thesis using str_nat_nonempty[of "m div 10"] by simp
    qed
  next
    case False
    then have n: "str_nat n = str_nat (n div 10) @ [digit_char (n mod 10)]"
      by (subst str_nat.simps) simp
    show ?thesis
    proof (cases "m < 10")
      case m: True
      then have "str_nat m = [digit_char m]" by (subst str_nat.simps) simp
      with n 1(2) show ?thesis using str_nat_nonempty[of "n div 10"] by simp
    next
      case m: False
      then have "str_nat m = str_nat (m div 10) @ [digit_char (m mod 10)]"
        by (subst str_nat.simps) simp
      with n 1(2) have "str_nat (n div 10) = str_nat (m div 10)"
        and d: "digit_char (n mod 10) = digit_char (m mod 10)" by simp_all
      then have "n div 10 = m div 10" using 1(1)[OF False] by simp
      moreover have "n mod 10 = m mod 10" using d by (simp add: digit_char_inj)
      ultimately show ?thesis by (metis div_mult_mod_eq)
    qed
  qed
qed

lemma numbered_email_inj: "numbered_email b d j = numbered_email b d k \<Longrightarrow> j = k"
  by (simp add: numbered_email_def str_nat_inj)

function unique_email_loop ::
  "string \<Rightarrow> string \<Rightarrow> string fset \<Rightarrow> nat \<Rightarrow> string \<Rightarrow> string" where
  "unique_email_loop base_local domain seen_emails counter unique_email =
     (if unique_email |\<in>| seen_emails
      then unique_email_loop base_local domain seen_emails (counter + 1)
             (numbered_email base_local domain (counter + 1))
      else unique_email)"
  by pat_completeness auto
termination
proof (relation "measure (\<lambda>(b, d, seen, counter, u).
          2 * card {k. counter < k \<and> numbered_email b d k |\<in>| seen}
          + (if u |\<in>| seen then 1 else 0))", goal_cases)
  case 1
  show ?case by simp
next
  case (2 b d seen counter u)
  let ?S = "\<lambda>c. {k. c < k \<and> numbered_email b d k |\<in>| seen}"
  have fin: "finite (?S c)" for c
  proof -
    have "inj (numbered_email b d)"
      by (rule injI) (rule numbered_email_inj)
    then have "finite (numbered_email b d -` fset seen)"
      by (simp add: finite_vimageI)
    moreover have "?S c \<subseteq> numbered_email b d -` fset seen"
      by auto
    ultimately show ?thesis by (rule rev_finite_subset)
  qed
  show ?case
  proof (cases "numbered_email b d (counter + 1) |\<in>| seen")
    case True
    have "?S counter = insert (counter + 1) (?S (counter + 1))"
      using True by (auto simp: Suc_lessI)
    moreover have "counter + 1 \<notin> ?S (counter + 1)" by simp
    ultimately have "card (?S counter) = Suc (card (?S (counter + 1)))"
      using fin[of "counter + 1"] by simp
    with 2 True show ?thesis by simp
  next
    case False
    have "?S counter = ?S (counter + 1)"
      using False by (auto simp: Suc_lessI) (metis Suc_lessI)
    with 2 False show ?thesis by simp
  qed
qed

declare unique_email_loop.simps [simp del]

text \<open>\<^verbatim>\<open>int(x)\<close> of a fraction rounds towards zero.\<close>

definition trunc :: "rat \<Rightarrow> int" where
  "trunc q = (if q < 0 then - \<lfloor>- q\<rfloor> else \<lfloor>q\<rfloor>)"

text \<open>\<^verbatim>\<open>xs[:n]\<close>: the first \<open>n\<close> elements, or all but the last \<open>-n\<close> for a negative \<open>n\<close>.\<close>

definition slice_to :: "'a list \<Rightarrow> int \<Rightarrow> 'a list" where
  "slice_to xs n = (if 0 \<le> n then take (nat n) xs else take (nat (int (length xs) + n)) xs)"

text \<open>
  The body of the inner loop of \<^verbatim>\<open>generate_users\<close>: it appends a user and adds the
  user's email to the set of seen emails.
\<close>

definition new_user ::
  "string \<Rightarrow> string \<Rightarrow> string \<Rightarrow> user list \<times> string fset \<Rightarrow> (user list \<times> string fset) py" where
  "new_user company tid department st =
     (case st of (users, seen_emails) \<Rightarrow>
     py_bind (generate_user_profile company (Some department)) (\<lambda>(name, email, role).
     py_bind (split_email email) (\<lambda>(base_local, domain).
     let unique_email = unique_email_loop base_local domain seen_emails 1 email;
         seen_emails' = finsert unique_email seen_emails
     in py_bind (generate_uuid (Some ''user'')) (\<lambda>uid.
        py_bind (random_bool (9 / 10)) (\<lambda>active.
        py_bind (random_date (iso_date 2021 1 1) (iso_date 2025 12 31) None) (\<lambda>joined.
        py_return
          (users @ [\<lparr>user_id = uid, user_team_id = tid, user_name = name,
                     user_email = unique_email, user_role = role, user_is_active = active,
                     user_joined_at = joined\<rparr>],
           seen_emails')))))))"

fun users_for_team ::
  "string \<Rightarrow> string \<Rightarrow> string \<Rightarrow> nat \<Rightarrow> user list \<times> string fset
   \<Rightarrow> (user list \<times> string fset) py" where
  "users_for_team company tid department 0 st = py_return st"
| "users_for_team company tid department (Suc n) st =
     py_bind (new_user company tid department st) (users_for_team company tid department n)"

fun users_for_teams ::
  "string \<Rightarrow> int \<Rightarrow> int \<Rightarrow> nat \<Rightarrow> team list \<Rightarrow> user list \<times> string fset
   \<Rightarrow> (user list \<times> string fset) py" where
  "users_for_teams company base_users_per_team remainder idx [] st = py_return st"
| "users_for_teams company base_users_per_team remainder idx (t # ts) st =
     py_bind (case team_department t of
                Some d \<Rightarrow> if d \<noteq> [] then py_return d else choice get_departments
              | None \<Rightarrow> choice get_departments) (\<lambda>department.
     let team_size = base_users_per_team + (if int idx < remainder then 1 else 0)
     in py_bind (float_of (1 / 10)) (\<lambda>lo.
        py_bind (float_of (2 / 10)) (\<lambda>hi.
        py_bind (uniform (- lo) hi) (\<lambda>x.
        py_bind (float_of_int team_size) (\<lambda>size_f.
        py_bind (float_of (size_f * x)) (\<lambda>product.
        let variation = trunc product;
            team_size' = max 1 (team_size + variation)
        in py_bind (users_for_team company (team_id t) department (nat team_size') st)
             (users_for_teams company base_users_per_team remainder (Suc idx) ts)))))))"

definition generate_users :: "team list \<Rightarrow> int \<Rightarrow> string \<Rightarrow> user list py" where
  "generate_users teams total_users company =
     (if teams = [] then py_raise ValueError
      else py_bind (set_seed 42) (\<lambda>_.
           let num_teams = int (length teams);
               base_users_per_team = total_users div num_teams;
               remainder = total_users mod num_teams
           in py_bind (users_for_teams company base_users_per_team remainder 0 teams
                         ([], {||})) (\<lambda>(users, seen_emails).
              py_bind (shuffle users) (\<lambda>shuffled.
              py_return (slice_to shuffled total_users)))))"

section \<open>generators/projects.py\<close>

definition PROJECT_NAMES :: "string list" where
  "PROJECT_NAMES =
     [''Growth Analytics Platform'', ''Mobile Redesign Sprint'', ''Customer Portal'',
      ''Onboarding Revamp'', ''Marketing Automation Integration'', ''Internal API Gateway'',
      ''Security Audit 2024'', ''Employee Experience Dashboard'',
      ''Performance Reporting Tool'', ''Cloud Cost Optimizer'']"

definition projects_STATUS_WEIGHTS :: "(string \<times> int) list" where
  "projects_STATUS_WEIGHTS =
     [(''Active'', 60), (''Completed'', 25), (''On Hold'', 10), (''Not Started'', 5)]"

definition FALLBACK_DESCRIPTIONS :: "string list" where
  "FALLBACK_DESCRIPTIONS =
     [''Build a scalable internal solution aligned with business objectives.'',
      ''Improve system reliability and user experience across teams.'',
      ''Deliver a cross-functional initiative supporting company growth.'',
      ''Modernize workflows and infrastructure for long-term scalability.'']"

definition projects_generate_description :: "string \<Rightarrow> string \<Rightarrow> string py" where
  "projects_generate_description pname department =
     (let prompt = ''Write a concise project description for a '' @ department
                   @ '' project named '' @ [CHR 0x27] @ pname @ [CHR 0x27]
                   @ '' in a B2B SaaS company.''
      in py_try (generate_text prompt) (choice FALLBACK_DESCRIPTIONS))"

text \<open>The body of the inner loop of \<^verbatim>\<open>generate_projects\<close>.\<close>

definition new_project :: "string \<Rightarrow> string \<Rightarrow> project py" where
  "new_project tid department =
     py_bind (choice PROJECT_NAMES) (\<lambda>pname.
     py_bind (weighted_choice projects_STATUS_WEIGHTS) (\<lambda>status.
     py_bind (random_date (iso_date 2021 1 1) (iso_date 2025 1 1) None) (\<lambda>created.
     py_bind (random_date created (iso_date 2025 6 30) None) (\<lambda>start_date.
     py_bind (if status \<in> {''Completed'', ''Active''}
              then py_bind (random_date start_date (iso_date 2025 12 31) None)
                     (\<lambda>d. py_return (Some d))
              else py_return None) (\<lambda>end_date.
     py_bind (ensure_chronology created end_date None) (\<lambda>ds.
     py_bind (generate_uuid (Some ''proj'')) (\<lambda>pid.
     py_bind (projects_generate_description pname department) (\<lambda>description.
     py_return
       \<lparr>project_id = pid, project_team_id = tid, project_department = Some department,
        project_name = Some pname, project_description = description,
        project_status = status, project_start_date = start_date,
        project_end_date = due_date ds, project_created_at = Some created\<rparr>))))))))"

fun projects_for_team :: "string \<Rightarrow> string \<Rightarrow> nat \<Rightarrow> project list \<Rightarrow> project list py" where
  "projects_for_team tid department 0 projects = py_return projects"
| "projects_for_team tid department (Suc n) projects =
     py_bind (new_project tid department) (\<lambda>p.
       projects_for_team tid department n (projects @ [p]))"

fun projects_for_teams :: "team list \<Rightarrow> project list \<Rightarrow> project list py" where
  "projects_for_teams [] projects = py_return projects"
| "projects_for_teams (t # ts) projects =
     py_bind (case team_department t of
                Some d \<Rightarrow> if d \<noteq> [] then py_return d else choice get_departments
              | None \<Rightarrow> choice get_departments) (\<lambda>department.
     py_bind (randint 3 12) (\<lambda>num_projects.
     py_bind (projects_for_team (team_id t) department (nat num_projects) projects)
       (projects_for_teams ts)))"

definition generate_projects :: "team list \<Rightarrow> string \<Rightarrow> project list py" where
  "generate_projects teams company_name =
     (if teams = [] then py_raise ValueError
      else py_bind (set_seed 42) (\<lambda>_. projects_for_teams teams []))"

section \<open>generators/sections.py\<close>

definition DEFAULT_SECTIONS :: "string list" where
  "DEFAULT_SECTIONS = [''Backlog'', ''To Do'', ''In Progress'', ''In Review'', ''Done'']"

definition ENGINEERING_SECTIONS :: "string list" where
  "ENGINEERING_SECTIONS =
     [''Backlog'', ''Sprint'', ''In Progress'', ''Testing'', ''Review'', ''Released'']"

definition MARKETING_DESIGN_SECTIONS :: "string list" where
  "MARKETING_DESIGN_SECTIONS =
     [''Planning'', ''Design'', ''In Progress'', ''Review'', ''Published'']"

definition choose_section_template :: "string option \<Rightarrow> string list" where
  "choose_section_template department =
     (if department \<in> {Some ''Engineering'', Some ''Product''} then ENGINEERING_SECTIONS
      else if department \<in> {Some ''Marketing'', Some ''Design''} then MARKETING_DESIGN_SECTIONS
      else DEFAULT_SECTIONS)"

text \<open>
  The dates a section's creation date is drawn and drawn again from before the section is
  emitted; each assignment is overwritten by the next and the dictionary takes a fresh
  draw, but every call advances the stream.
\<close>

definition overwritten_dates :: "date \<Rightarrow> unit py" where
  "overwritten_dates pc =
     py_bind (random_date pc pc None) (\<lambda>a1.
     py_bind (random_date pc pc None) (\<lambda>b1.
     py_bind (random_date a1 b1 None) (\<lambda>_.
     py_bind (random_date pc pc None) (\<lambda>a2.
     py_bind (random_date pc pc None) (\<lambda>b2.
     py_bind (random_date a2 b2 None) (\<lambda>_.
     py_bind (random_date pc pc None) (\<lambda>a3.
     py_bind (random_date a3 pc None) (\<lambda>_.
     py_bind (random_date pc pc None) (\<lambda>b4.
     py_bind (random_date pc b4 None) (\<lambda>_.
     py_return ()))))))))))"

text \<open>The body of the inner loop of \<^verbatim>\<open>generate_sections\<close>.\<close>

definition new_section :: "string \<Rightarrow> date option \<Rightarrow> nat \<Rightarrow> string \<Rightarrow> section_rec py" where
  "new_section pid project_created idx name =
     py_bind (case project_created of None \<Rightarrow> py_return () | Some pc \<Rightarrow> overwritten_dates pc)
       (\<lambda>_.
     py_bind (generate_uuid (Some ''sec'')) (\<lambda>sid.
     py_bind (case project_created of
                None \<Rightarrow> py_return None
              | Some pc \<Rightarrow> py_bind (random_date pc pc None) (\<lambda>d. py_return (Some d)))
       (\<lambda>created.
     py_return
       \<lparr>section_id = sid, section_project_id = pid, section_name = name,
        section_position = idx, section_created_at = created\<rparr>)))"

text \<open>\<^verbatim>\<open>for idx, name in enumerate(chosen_sections, start=1)\<close>, from the index \<open>idx\<close> on.\<close>

fun sections_from ::
  "string \<Rightarrow> date option \<Rightarrow> nat \<Rightarrow> string list \<Rightarrow> section_rec list \<Rightarrow> section_rec list py" where
  "sections_from pid project_created idx [] sections = py_return sections"
| "sections_from pid project_created idx (name # names) sections =
     py_bind (new_section pid project_created idx name) (\<lambda>s.
       sections_from pid project_created (Suc idx) names (sections @ [s]))"

fun sections_for_projects :: "project list \<Rightarrow> section_rec list \<Rightarrow> section_rec list py" where
  "sections_for_projects [] sections = py_return sections"
| "sections_for_projects (p # ps) sections =
     (let department = project_department p;
          project_created = project_created_at p;
          template = choose_section_template department
      in py_bind (if department \<in> {Some ''Engineering'', Some ''Product''} then randint 5 6
                  else if department \<in> {Some ''Marketing'', Some ''Design''} then randint 4 5
                  else randint 3 5) (\<lambda>num_sections.
         let chosen_sections = slice_to template num_sections
         in py_bind (sections_from (project_id p) project_created 1 chosen_sections sections)
              (sections_for_projects ps)))"

definition generate_sections :: "project list \<Rightarrow> section_rec list py" where
  "generate_sections projects =
     (if projects = [] then py_return []
      else py_bind (set_seed 42) (\<lambda>_. sections_for_projects projects []))"

section \<open>Demo inputs and returning computations\<close>

text \<open>The projects and users of the demo of \<^verbatim>\<open>tasks.py\<close>.\<close>

definition demo_project :: "nat \<Rightarrow> project" where
  "demo_project i = \<lparr>project_id = ''proj_'' @ str_nat i, project_team_id = ''team_1'',
     project_department = None, project_name = Some ''Demo Project'',
     project_description = [], project_status = [], project_start_date = 0,
     project_end_date = None, project_created_at = None\<rparr>"

definition demo_user :: "nat \<Rightarrow> user" where
  "demo_user i = \<lparr>user_id = ''user_'' @ str_nat i, user_team_id = [], user_name = [],
     user_email = [], user_role = [], user_is_active = True, user_joined_at = 0\<rparr>"

text \<open>
  A date with two weeks of calendar after it: from such dates the corrections of
  \<^verbatim>\<open>ensure_chronology\<close> stay in the calendar. The dates of the generators lie between
  2021-01-01 and 2025-12-31.
\<close>

definition has_margin :: "date \<Rightarrow> bool" where
  "has_margin d \<longleftrightarrow> date_min \<le> d \<and> d + 14 \<le> date_max"

definition has_margin_opt :: "date option \<Rightarrow> bool" where
  "has_margin_opt s \<longleftrightarrow> (case s of None \<Rightarrow> True | Some d \<Rightarrow> has_margin d)"

definition task_has_margin :: "task \<Rightarrow> bool" where
  "task_has_margin t \<longleftrightarrow>
     has_margin_opt (task_created_at t) \<and> has_margin_opt (task_due_date t)"

text \<open>A computation returns when it raises in no world.\<close>

definition returns :: "'a py \<Rightarrow> bool" where
  "returns m \<longleftrightarrow> (\<forall>w. \<exists>x w'. m w = Inr (x, w'))"

text \<open>
  A computation keeps the entropy when it reads none of it: no identifier is minted in it.
\<close>

definition keeps_urandom :: "'a py \<Rightarrow> bool" where
  "keeps_urandom m \<longleftrightarrow> (\<forall>w x w'. m w = Inr (x, w') \<longrightarrow> urandom w' = urandom w)"

text \<open>
  The sections of one project, as \<^verbatim>\<open>generate_sections\<close> emits them: the positions are
  \<open>1..N\<close>, the names are the first \<open>N\<close> of the template of the project's department,
  every section refers to the project and carries the project's creation date, and \<open>N\<close>
  is 5 or 6 for Engineering and Product, 4 or 5 for Marketing and Design, and 3 to 5
  otherwise.
\<close>

definition section_block :: "project \<Rightarrow> section_rec list \<Rightarrow> bool" where
  "section_block p b \<longleftrightarrow>
     map section_position b = [1..<Suc (length b)]
     \<and> map section_name b = take (length b) (choose_section_template (project_department p))
     \<and> map section_project_id b = replicate (length b) (project_id p)
     \<and> map section_created_at b = replicate (length b) (project_created_at p)
     \<and> length b \<in> (if project_department p \<in> {Some ''Engineering'', Some ''Product''} then {5, 6}
                    else if project_department p \<in> {Some ''Marketing'', Some ''Design''} then {4, 5}
                    else {3, 4, 5})"

text \<open>A team of the demo of \<^verbatim>\<open>projects.py\<close>.\<close>

definition demo_team :: "nat \<Rightarrow> team" where
  "demo_team i = \<lparr>team_id = ''team_'' @ str_nat i, team_department = Some ''Engineering''\<rparr>"


text \<open>
  The rule of the end date, as \<^verbatim>\<open>generate_projects\<close> has it: a project has an end date
  exactly when its status is Completed or Active, and its status is one of the four of the
  status table.
\<close>

definition end_date_rule :: "project \<Rightarrow> bool" where
  "end_date_rule p \<longleftrightarrow>
     (project_end_date p \<noteq> None \<longleftrightarrow> project_status p \<in> {''Completed'', ''Active''})
     \<and> project_status p \<in> {''Active'', ''Completed'', ''On Hold'', ''Not Started''}"

section \<open>Properties of the date utilities\<close>

lemma randint_ok:
  "a \<le> b \<Longrightarrow>
   randint a b w = Inr (a + int (rng w 0) mod (b - a + 1), w\<lparr>rng := (\<lambda>i. rng w (Suc i))\<rparr>)"
  by (simp add: randint_def py_bind_def py_return_def next_raw_def)

lemma randint_empty: "b < a \<Longrightarrow> randint a b w = Inl (ValueError, w)"
  by (simp add: randint_def py_raise_def)

lemma randint_1_7:
  "randint 1 7 w = Inr (1 + int (rng w 0) mod 7, w\<lparr>rng := (\<lambda>i. rng w (Suc i))\<rparr>)"
  by (simp add: randint_ok)

lemma mod_range: "0 \<le> (d::int) \<Longrightarrow> 0 \<le> int r mod (d + 1) \<and> int r mod (d + 1) \<le> d"
  by (smt (verit) pos_mod_bound pos_mod_sign)

lemma draw_1_7: "1 \<le> 1 + int r mod 7 \<and> 1 + int r mod 7 \<le> 7"
  using mod_range[of 6 r] by simp

lemma random_date_eq:
  "random_date s e seed w =
     Inr (min s e + int ((case seed of None \<Rightarrow> rng w | Some x \<Rightarrow> mt w x) 0)
                      mod (max s e - min s e + 1),
          w\<lparr>rng := (\<lambda>i. (case seed of None \<Rightarrow> rng w | Some x \<Rightarrow> mt w x) (Suc i))\<rparr>)"
  by (cases seed; cases "e < s")
     (simp_all add: random_date_def py_bind_def py_return_def set_seed_def randint_ok Let_def
        min_def max_def)

lemma random_date_reaches:
  assumes "min s e \<le> d" and "d \<le> max s e"
  shows "\<exists>w w'. random_date s e seed w = Inr (d, w')"
proof -
  define k where "k = nat (d - min s e)"
  define w :: world where
    "w = \<lparr>rng = (\<lambda>_. k), mt = (\<lambda>_ _. k), urandom = (\<lambda>_. []), llm = (\<lambda>_ _. None),
          faker = (\<lambda>_ _. []), files = (\<lambda>_. None), fl = (\<lambda>q. q)\<rparr>"
  have "int k mod (max s e - min s e + 1) = d - min s e"
    using assms by (simp add: k_def)
  then have "\<exists>w'. random_date s e seed w = Inr (d, w')"
    by (cases seed) (simp_all add: random_date_eq w_def)
  then show ?thesis by blast
qed

lemma to_date_ok: "is_date d \<Longrightarrow> to_date d w = Inr (d, w)"
  by (simp add: to_date_def py_return_def)

lemma to_date_opt_ok: "is_date_opt s \<Longrightarrow> to_date_opt s w = Inr (s, w)"
  by (cases s) (simp_all add: to_date_opt_def is_date_opt_def py_bind_def py_return_def to_date_ok)

lemma add_days_ok: "is_date (d + n) \<Longrightarrow> add_days d n w = Inr (d + n, w)"
  by (simp add: add_days_def py_return_def)

lemmas ensure_chronology_defs =
  ensure_chronology_def to_date_def to_date_opt_def add_days_def is_date_opt_def
  py_bind_def py_return_def py_raise_def randint_1_7 Let_def



lemma ensure_chronology_created:
  "ensure_chronology created due completed w = Inr (r, w') \<Longrightarrow> created_at r = created"
  by (cases due; cases completed)
     (auto simp add: ensure_chronology_defs split: if_splits)

lemma ensure_chronology_fixed:
  "chronological r \<Longrightarrow> dates_valid r \<Longrightarrow>
   ensure_chronology (created_at r) (due_date r) (completed_at r) w = Inr (r, w)"
  by (cases "due_date r"; cases "completed_at r")
     (auto simp add: ensure_chronology_defs chronological_def dates_valid_def)

text \<open>
  \<^verbatim>\<open>ensure_chronology\<close> returns when its three arguments are dates and the corrections
  stay in the calendar: the creation is 14 days or more before the last day, a due date
  7 days or more.
\<close>

lemma ensure_chronology_returns:
  assumes "is_date created" and "is_date_opt due" and "is_date_opt completed"
    and "created + 14 \<le> date_max"
    and "case due of None \<Rightarrow> True | Some d \<Rightarrow> d + 7 \<le> date_max"
  shows "\<exists>r w'. ensure_chronology created due completed w = Inr (r, w')"
  using assms draw_1_7[of "rng w 0"] draw_1_7[of "rng w (Suc 0)"]
  by (cases due; cases completed)
     (auto simp add: ensure_chronology_defs is_date_def)

text \<open>
  C10: \<^verbatim>\<open>random_date\<close> returns for every pair of dates, in either order: it gives the
  same result for \<open>(start, end)\<close> and \<open>(end, start)\<close>, the date it returns lies between
  the smaller and the larger bound, and both bounds are themselves results of some draw.
\<close>

theorem random_date_total_in_range:
  "(\<exists>d w'. random_date s e seed w = Inr (d, w') \<and> min s e \<le> d \<and> d \<le> max s e)
   \<and> random_date s e seed w = random_date e s seed w
   \<and> (\<exists>w0 w'. random_date s e seed w0 = Inr (min s e, w'))
   \<and> (\<exists>w0 w'. random_date s e seed w0 = Inr (max s e, w'))"
proof -
  have "0 \<le> max s e - min s e" by simp
  from mod_range[OF this]
  have "\<exists>d w'. random_date s e seed w = Inr (d, w') \<and> min s e \<le> d \<and> d \<le> max s e"
    by (simp add: random_date_eq) (smt (verit))
  moreover have "random_date s e seed w = random_date e s seed w"
    by (simp add: random_date_eq min.commute max.commute)
  moreover have "\<exists>w0 w'. random_date s e seed w0 = Inr (min s e, w')"
    by (rule random_date_reaches) simp_all
  moreover have "\<exists>w0 w'. random_date s e seed w0 = Inr (max s e, w')"
    by (rule random_date_reaches) simp_all
  ultimately show ?thesis by blast
qed

text \<open>
  C1, amended: \<^verbatim>\<open>ensure_chronology\<close> raises \<^verbatim>\<open>ValueError\<close> when one of its arguments
  is no date. Otherwise a due date before the creation is replaced by the creation plus
  the first draw \<open>u1\<close> of \<open>1..7\<close>, and any other due date, and an absent one, is kept; the
  reference of the completion check is the due date of the result (the corrected one), or
  the creation without a due date; a completion before the reference is replaced by the
  reference plus the next draw \<open>u2\<close> of \<open>1..7\<close> (the second of the stream when the due
  date was corrected, the first otherwise), and any other completion, and an absent one,
  is kept; the creation is returned as given. A correction that would pass the last day
  of the calendar, 9999-12-31, raises \<^verbatim>\<open>OverflowError\<close> instead, the correction of the
  due date first.
\<close>

theorem ensure_chronology_steps:
  "run (ensure_chronology created due completed) w =
     (let u1 = 1 + int (rng w 0) mod 7;
          due_late = (case due of None \<Rightarrow> False | Some d \<Rightarrow> d < created);
          due_dt = (case due of None \<Rightarrow> None
                    | Some d \<Rightarrow> if d < created then Some (created + u1) else Some d);
          reference = (case due_dt of Some d \<Rightarrow> d | None \<Rightarrow> created);
          u2 = 1 + int (rng w (if due_late then 1 else 0)) mod 7;
          completed_late = (case completed of None \<Rightarrow> False | Some c \<Rightarrow> c < reference);
          completed_dt = (case completed of None \<Rightarrow> None
                          | Some c \<Rightarrow> if c < reference then Some (reference + u2) else Some c)
      in if \<not> (is_date created \<and> is_date_opt due \<and> is_date_opt completed)
         then Inl ValueError
         else if due_late \<and> \<not> is_date (created + u1) then Inl OverflowError
         else if completed_late \<and> \<not> is_date (reference + u2) then Inl OverflowError
         else Inr \<lparr>created_at = created, due_date = due_dt, completed_at = completed_dt\<rparr>)
   \<and> 1 \<le> 1 + int (rng w 0) mod 7 \<and> 1 + int (rng w 0) mod 7 \<le> 7
   \<and> 1 \<le> 1 + int (rng w 1) mod 7 \<and> 1 + int (rng w 1) mod 7 \<le> 7"
  using draw_1_7[of "rng w 0"] draw_1_7[of "rng w 1"]
  by (cases due; cases completed)
     (simp_all add: run_def ensure_chronology_defs)

text \<open>
  The claim as written gives a result to every triple; the correction of a due date
  9999-12-30 after a creation 9999-12-31 has none.
\<close>

theorem ensure_chronology_overflow_counterexample:
  "run (ensure_chronology (iso_date 9999 12 31) (Some (iso_date 9999 12 30)) None) (world_of [])
     = Inl OverflowError"
  by (simp add: run_def ensure_chronology_defs is_date_def date_min_def date_max_def
        iso_date_def days_before_year_def days_before_month_def days_in_month_def is_leap_def
        world_of_def upt_conv_Cons)


lemma iso_date_2023_01_10: "iso_date 2023 1 10 = 738530"
  by (simp add: iso_date_def days_before_year_def days_before_month_def days_in_month_def
        is_leap_def upt_conv_Cons)

lemma iso_date_2023_01_05: "iso_date 2023 1 5 = 738525"
  by (simp add: iso_date_def days_before_year_def days_before_month_def days_in_month_def
        is_leap_def upt_conv_Cons)


section \<open>Properties of the weighted sampler\<close>

lemma bisect_bounds: "lo \<le> hi \<Longrightarrow> lo \<le> bisect a x lo hi \<and> bisect a x lo hi \<le> hi"
proof (induction a x lo hi rule: bisect.induct)
  case (1 a x lo hi)
  show ?case
  proof (cases "lo < hi")
    case True
    then have mid: "lo \<le> (lo + hi) div 2" "(lo + hi) div 2 < hi" "(lo + hi) div 2 + 1 \<le> hi"
      by linarith+
    show ?thesis
    proof (cases "x < of_int (a ! ((lo + hi) div 2))")
      case left: True
      with True 1(1)[OF True refl left mid(1)] mid show ?thesis
        by (subst (1 2) bisect.simps) (simp add: Let_def)
    next
      case right: False
      with True 1(2)[OF True refl right mid(3)] mid show ?thesis
        by (subst (1 2) bisect.simps) (simp add: Let_def)
    qed
  next
    case False
    with 1(3) show ?thesis by (subst (1 2) bisect.simps) simp
  qed
qed

lemma length_accumulate: "length (accumulate acc xs) = length xs"
  by (induction xs arbitrary: acc) auto

lemma accumulate_Nil_iff: "accumulate acc xs = [] \<longleftrightarrow> xs = []"
  by (cases xs) auto

lemma last_accumulate: "xs \<noteq> [] \<Longrightarrow> last (accumulate acc xs) = acc + sum_list xs"
proof (induction xs arbitrary: acc)
  case Nil
  then show ?case by simp
next
  case (Cons x xs)
  then show ?case by (cases xs) auto
qed

lemma random_unit_eq:
  "random_unit w = Inr (of_nat (rng w 0 mod 2 ^ 53) / 2 ^ 53, w\<lparr>rng := (\<lambda>i. rng w (Suc i))\<rparr>)"
  by (simp add: random_unit_def py_bind_def py_return_def next_raw_def)

lemma weighted_choice_eq:
  "weighted_choice choices w =
     (if choices = [] then Inl (ValueError, w)
      else if float_limit \<le> \<bar>sum_list (map snd choices)\<bar> then Inl (OverflowError, w)
      else if sum_list (map snd choices) \<le> 0 then Inl (ValueError, w)
      else Inr (map fst choices !
                  bisect (accumulate 0 (map snd choices))
                    (fl w (of_nat (rng w 0 mod 2 ^ 53) / 2 ^ 53
                           * fl w (of_int (sum_list (map snd choices)))))
                    0 (length choices - 1),
                w\<lparr>rng := (\<lambda>i. rng w (Suc i))\<rparr>))"
  by (simp add: weighted_choice_def choices1_def Let_def py_raise_def py_bind_def py_return_def
      random_unit_eq length_accumulate last_accumulate accumulate_Nil_iff float_of_int_def
      float_of_def)

lemma sum_list_pos: "xs \<noteq> [] \<Longrightarrow> \<forall>x\<in>set xs. 0 < (x::int) \<Longrightarrow> 0 < sum_list xs"
  by (induction xs) (auto simp: add_pos_nonneg sum_list_nonneg less_imp_le)

lemma weighted_choice_index:
  assumes "choices \<noteq> []"
  shows "map fst choices ! bisect a x 0 (length choices - 1) \<in> fst ` set choices"
proof -
  have "bisect a x 0 (length choices - 1) < length choices"
    using bisect_bounds[of 0 "length choices - 1" a x] assms
    by (simp add: le_imp_less_Suc Suc_pred' flip: length_greater_0_conv)
  then show ?thesis
    by (metis length_map nth_mem set_map)
qed

lemma float_limit_pos: "0 < float_limit"
  by (simp add: float_limit_def)

text \<open>
  C7, amended: \<^verbatim>\<open>weighted_choice\<close> raises \<^verbatim>\<open>ValueError\<close> exactly when the mapping is
  empty or the sum of its weights is not positive and above \<open>-(2\<^sup>1\<^sup>0\<^sup>2\<^sup>4 - 2\<^sup>9\<^sup>7\<^sup>0)\<close>; it
  raises \<^verbatim>\<open>OverflowError\<close> exactly when the mapping is not empty and the absolute value
  of the sum is \<open>2\<^sup>1\<^sup>0\<^sup>2\<^sup>4 - 2\<^sup>9\<^sup>7\<^sup>0\<close> or more; it returns one of the mapping's labels
  exactly when the mapping is not empty and the sum is positive and below
  \<open>2\<^sup>1\<^sup>0\<^sup>2\<^sup>4 - 2\<^sup>9\<^sup>7\<^sup>0\<close>, whatever the rounding of the floating-point product. A
  non-empty mapping whose weights are all positive has a positive sum.
\<close>

theorem weighted_choice_fails_iff:
  "(weighted_choice choices w = Inl (ValueError, w)
      \<longleftrightarrow> choices = []
          \<or> (sum_list (map snd choices) \<le> 0 \<and> - float_limit < sum_list (map snd choices)))
   \<and> (weighted_choice choices w = Inl (OverflowError, w)
      \<longleftrightarrow> choices \<noteq> [] \<and> float_limit \<le> \<bar>sum_list (map snd choices)\<bar>)
   \<and> ((\<exists>l w'. weighted_choice choices w = Inr (l, w') \<and> l \<in> fst ` set choices)
        \<longleftrightarrow> choices \<noteq> [] \<and> 0 < sum_list (map snd choices)
            \<and> sum_list (map snd choices) < float_limit)
   \<and> (choices \<noteq> [] \<and> (\<forall>c\<in>set choices. 0 < snd c) \<longrightarrow> 0 < sum_list (map snd choices))"
proof -
  have "choices \<noteq> [] \<and> (\<forall>c\<in>set choices. 0 < snd c) \<longrightarrow> 0 < sum_list (map snd choices)"
    using sum_list_pos[of "map snd choices"] by auto
  moreover have "weighted_choice choices w = Inl (ValueError, w)
      \<longleftrightarrow> choices = []
          \<or> (sum_list (map snd choices) \<le> 0 \<and> - float_limit < sum_list (map snd choices))"
    using float_limit_pos by (auto simp: weighted_choice_eq)
  moreover have "weighted_choice choices w = Inl (OverflowError, w)
      \<longleftrightarrow> choices \<noteq> [] \<and> float_limit \<le> \<bar>sum_list (map snd choices)\<bar>"
    by (auto simp: weighted_choice_eq)
  moreover have "(\<exists>l w'. weighted_choice choices w = Inr (l, w') \<and> l \<in> fst ` set choices)
        \<longleftrightarrow> choices \<noteq> [] \<and> 0 < sum_list (map snd choices)
            \<and> sum_list (map snd choices) < float_limit"
    using weighted_choice_index[of choices] float_limit_pos by (auto simp: weighted_choice_eq)
  ultimately show ?thesis by blast
qed

theorem weighted_choice_fails_iff_witness:
  "[(''Done'', 60), (''In Progress'', 30), (''Stuck'', 10)] \<noteq> []
   \<and> list_all (\<lambda>c. 0 < snd c) [(''Done'', 60::int), (''In Progress'', 30), (''Stuck'', 10)]
   \<and> 0 < sum_list (map snd [(''Done'', 60::int), (''In Progress'', 30), (''Stuck'', 10)])
   \<and> run (weighted_choice [(''Done'', 60), (''In Progress'', 30), (''Stuck'', 10)])
         (world_of [2 ^ 52]) = Inr ''Done''"
  using weighted_choice_fails_iff
          [of "[(''Done'', 60), (''In Progress'', 30), (''Stuck'', 10)]" "world_of [2 ^ 52]"]
  by (simp add: run_def weighted_choice_eq world_of_def bisect.simps float_limit_def)

text \<open>
  The claim as written fails: a mapping with the weights 0 and 5 contains a non-positive
  weight, and the sampler returns the label of weight 5.
\<close>

theorem weighted_choice_zero_weight_counterexample:
  "run (weighted_choice [(''a'', 0), (''b'', 5)]) (world_of []) = Inr ''b''"
  by (simp add: run_def weighted_choice_eq world_of_def bisect.simps float_limit_def)

section \<open>Computations that return\<close>

lemma py_bind_Inr:
  "py_bind m f w = Inr r \<longleftrightarrow> (\<exists>x w'. m w = Inr (x, w') \<and> f x w' = Inr r)"
  by (auto simp: py_bind_def split: sum.splits)

lemma py_return_Inr: "py_return x w = Inr r \<longleftrightarrow> r = (x, w)"
  by (auto simp: py_return_def)

lemma py_raise_Inr: "py_raise e w \<noteq> Inr r"
  by (simp add: py_raise_def)

lemma py_try_Inr:
  "py_try m h w = Inr r \<longleftrightarrow> m w = Inr r \<or> (\<exists>e w'. m w = Inl (e, w') \<and> h w' = Inr r)"
  by (auto simp: py_try_def split: sum.splits)

lemmas py_Inr = py_bind_Inr py_return_Inr py_raise_Inr py_try_Inr

lemma returnsD: "returns m \<Longrightarrow> \<exists>x w'. m w = Inr (x, w')"
  by (simp add: returns_def)

lemma returns_return: "returns (py_return x)"
  by (simp add: returns_def py_return_def)

lemma returns_bind: "returns m \<Longrightarrow> (\<And>x. returns (f x)) \<Longrightarrow> returns (py_bind m f)"
  unfolding returns_def py_bind_def
  by (metis (mono_tags, lifting) sum.simps(6) case_prod_conv)

lemma returns_try: "returns m \<Longrightarrow> returns (py_try m h)"
  unfolding returns_def py_try_def
  by (metis (mono_tags, lifting) sum.simps(6))

lemma returns_if: "returns a \<Longrightarrow> returns b \<Longrightarrow> returns (if c then a else b)"
  by simp

lemma returns_next_raw: "returns next_raw"
  by (simp add: returns_def next_raw_def)

lemma returns_set_seed: "returns (set_seed s)"
  by (simp add: returns_def set_seed_def)

lemma returns_randint: "a \<le> b \<Longrightarrow> returns (randint a b)"
  by (simp add: returns_def randint_ok)

lemma returns_random_unit: "returns random_unit"
  unfolding returns_def random_unit_eq by blast

lemma returns_choice: "xs \<noteq> [] \<Longrightarrow> returns (choice xs)"
  by (simp add: choice_def returns_bind returns_next_raw returns_return)

lemma returns_random_date: "returns (random_date s e seed)"
  by (simp add: returns_def random_date_eq)

lemma py_bindI: "m w = Inr (x, w') \<Longrightarrow> f x w' = Inr r \<Longrightarrow> py_bind m f w = Inr r"
  by (simp add: py_bind_def)

lemma py_returnI: "py_return x w = Inr (x, w)"
  by (simp add: py_return_def)

lemma iso_date_values:
  "iso_date 2021 1 1 = 737791" "iso_date 2025 1 1 = 739252"
  "iso_date 2025 6 30 = 739432" "iso_date 2025 12 31 = 739616"
  "iso_date 2021 (Suc 0) 1 = 737791" "iso_date 2025 (Suc 0) 1 = 739252"
  by (simp_all add: iso_date_def days_before_year_def days_before_month_def days_in_month_def
        is_leap_def upt_conv_Cons)

lemma random_date_between:
  "\<exists>d w'. random_date s e seed w = Inr (d, w') \<and> min s e \<le> d \<and> d \<le> max s e"
proof -
  have "0 \<le> max s e - min s e" by simp
  from mod_range[OF this] show ?thesis
    by (simp add: random_date_eq) (smt (verit))
qed

lemma has_margin_between:
  "has_margin s \<Longrightarrow> has_margin e \<Longrightarrow> min s e \<le> d \<Longrightarrow> d \<le> max s e \<Longrightarrow> has_margin d"
  by (auto simp: has_margin_def min_def max_def split: if_splits)

lemma random_date_margin:
  assumes "has_margin s" and "has_margin e"
  shows "\<exists>d w'. random_date s e seed w = Inr (d, w') \<and> has_margin d"
  using random_date_between[of s e seed w] has_margin_between[OF assms] by blast

lemma ensure_chronology_returns_margin:
  assumes "has_margin c" and "has_margin_opt d" and "has_margin_opt k"
  shows "\<exists>r w'. ensure_chronology c d k w = Inr (r, w')"
  using assms
  by (intro ensure_chronology_returns)
     (auto simp: has_margin_def has_margin_opt_def is_date_def is_date_opt_def
        split: option.splits)

lemma ensure_chronology_kept:
  assumes "is_date c" and "is_date_opt d" and "is_date_opt k"
    and "chronological \<lparr>created_at = c, due_date = d, completed_at = k\<rparr>"
  shows "ensure_chronology c d k w = Inr (\<lparr>created_at = c, due_date = d, completed_at = k\<rparr>, w)"
  using ensure_chronology_fixed[of "\<lparr>created_at = c, due_date = d, completed_at = k\<rparr>" w] assms
  by (simp add: dates_valid_def)

lemma returns_weighted_choice:
  "choices \<noteq> [] \<Longrightarrow> 0 < sum_list (map snd choices)
   \<Longrightarrow> sum_list (map snd choices) < float_limit \<Longrightarrow> returns (weighted_choice choices)"
  by (simp add: returns_def weighted_choice_eq)

lemma returns_random_bool: "0 \<le> p \<Longrightarrow> p \<le> 1 \<Longrightarrow> returns (random_bool p)"
  by (simp add: random_bool_def returns_bind returns_random_unit returns_return)

lemma returns_generate_uuid: "returns (generate_uuid prefix)"
  by (simp add: returns_def generate_uuid_def uuid4_def py_bind_def py_return_def)

lemma returns_generate_text: "returns (generate_text prompt)"
proof -
  have "returns (ask_llm prompt)"
    by (simp add: returns_def ask_llm_def)
  moreover have "returns (case answer of Some content \<Rightarrow> py_return (strip content)
                          | None \<Rightarrow> random_sentence)" for answer
    by (cases answer) (simp_all add: returns_return random_sentence_def returns_choice)
  ultimately show ?thesis
    unfolding generate_text_def by (rule returns_bind)
qed

lemma returns_draw_assignee: "returns (draw_assignee users)"
  by (auto simp: draw_assignee_def intro!: returns_bind returns_random_bool returns_return
        returns_choice)

lemma returns_render_keys: "returns (render_keys keys s)"
  by (induction keys arbitrary: s)
     (auto simp: TECH_WORDS_def intro!: returns_bind returns_choice returns_return)

lemma returns_generate_task_name: "prompts \<noteq> [] \<Longrightarrow> returns (generate_task_name prompts)"
  unfolding generate_task_name_def render_prompt_def
  by (intro returns_bind returns_choice returns_return returns_render_keys)

lemma returns_tasks_generate_description: "returns (tasks_generate_description pname tname)"
  unfolding tasks_generate_description_def Let_def
  by (intro returns_try returns_generate_text)

lemma returns_tasks_status: "returns (weighted_choice tasks_STATUS_WEIGHTS)"
  by (rule returns_weighted_choice) (simp_all add: tasks_STATUS_WEIGHTS_def float_limit_def)

lemma returns_priority: "returns (weighted_choice PRIORITY_WEIGHTS)"
  by (rule returns_weighted_choice) (simp_all add: PRIORITY_WEIGHTS_def float_limit_def)

text \<open>
  The dates \<^verbatim>\<open>generate_tasks\<close> draws for a task are in order and between 2021-01-01 and
  2025-12-31: \<^verbatim>\<open>ensure_chronology\<close> returns them as they are.
\<close>

lemma new_task_returns:
  assumes "prompts \<noteq> []"
  shows "\<exists>t w'. new_task prompts users pid pname w = Inr (t, w') \<and> task_has_margin t"
proof -
  obtain name w1 where s1: "generate_task_name prompts w = Inr (name, w1)"
    using returnsD[OF returns_generate_task_name[OF assms]] by blast
  obtain status w2 where s2: "weighted_choice tasks_STATUS_WEIGHTS w1 = Inr (status, w2)"
    using returnsD[OF returns_tasks_status] by blast
  obtain priority w3 where s3: "weighted_choice PRIORITY_WEIGHTS w2 = Inr (priority, w3)"
    using returnsD[OF returns_priority] by blast
  obtain created w4 where
    s4: "random_date (iso_date 2021 1 1) (iso_date 2025 1 1) None w3 = Inr (created, w4)"
    and c: "737791 \<le> created" "created \<le> 739252"
    using random_date_between[of "iso_date 2021 1 1" "iso_date 2025 1 1" None w3]
    by (auto simp: iso_date_values)
  obtain due w5 where
    s5: "random_date created (iso_date 2025 12 31) None w4 = Inr (due, w5)"
    and d: "created \<le> due" "due \<le> 739616"
    using random_date_between[of created "iso_date 2025 12 31" None w4] c
    by (auto simp: iso_date_values)
  obtain completed_date w6 where
    s6: "(if status = ''Done''
          then py_bind (random_date due (iso_date 2025 12 31) None) (\<lambda>d. py_return (Some d))
          else py_return None) w5 = Inr (completed_date, w6)"
    and k: "case completed_date of None \<Rightarrow> True | Some x \<Rightarrow> due \<le> x \<and> x \<le> 739616"
    using random_date_between[of due "iso_date 2025 12 31" None w5] d
    by (cases "status = ''Done''") (auto simp: iso_date_values py_bind_def py_return_def)
  have s7: "ensure_chronology created (Some due) completed_date w6
            = Inr (\<lparr>created_at = created, due_date = Some due,
                    completed_at = completed_date\<rparr>, w6)"
    using c d k
    by (intro ensure_chronology_kept)
       (auto simp: is_date_def is_date_opt_def date_min_def date_max_def chronological_def
          split: option.splits)
  obtain assignee w7 where s8: "draw_assignee users w6 = Inr (assignee, w7)"
    using returnsD[OF returns_draw_assignee] by blast
  obtain tid w8 where s9: "generate_uuid (Some ''task'') w7 = Inr (tid, w8)"
    using returnsD[OF returns_generate_uuid] by blast
  obtain description w9 where
    s10: "tasks_generate_description pname name w8 = Inr (description, w9)"
    using returnsD[OF returns_tasks_generate_description] by blast
  have "\<exists>t. new_task prompts users pid pname w = Inr (t, w9) \<and> task_has_margin t"
    unfolding new_task_def Let_def
    apply (intro exI conjI)
     apply ((rule py_bindI, rule s1 s2 s3 s4 s5 s6 s7 s8 s9 s10)+, rule py_returnI)
    apply (insert c d)
    apply (simp add: task_has_margin_def has_margin_opt_def has_margin_def date_min_def
          date_max_def)
    done
  then show ?thesis by blast
qed

lemma returns_new_task: "prompts \<noteq> [] \<Longrightarrow> returns (new_task prompts users pid pname)"
  unfolding returns_def using new_task_returns by blast

lemma tasks_for_project_margin:
  assumes "prompts \<noteq> []" and "list_all task_has_margin tasks"
  shows "\<exists>reached ts w'.
           tasks_for_project prompts users cap pid pname n tasks w = Inr ((reached, ts), w')
           \<and> list_all task_has_margin ts"
  using assms(2)
proof (induction n arbitrary: tasks w)
  case 0
  then show ?case by (auto simp: py_return_def)
next
  case (Suc n)
  show ?case
  proof (cases "int (length tasks) \<ge> cap")
    case True
    with Suc.prems show ?thesis by (auto simp: py_return_def)
  next
    case False
    obtain t w1 where t: "new_task prompts users pid pname w = Inr (t, w1)"
      and m: "task_has_margin t"
      using new_task_returns[OF assms(1)] by blast
    from Suc.prems m have "list_all task_has_margin (tasks @ [t])" by simp
    from Suc.IH[OF this, of w1] obtain reached ts w' where
      rest: "tasks_for_project prompts users cap pid pname n (tasks @ [t]) w1
             = Inr ((reached, ts), w')"
      and ts: "list_all task_has_margin ts"
      by blast
    have "tasks_for_project prompts users cap pid pname (Suc n) tasks w = Inr ((reached, ts), w')"
      using False by (simp add: py_bind_def t rest)
    with ts show ?thesis by blast
  qed
qed

lemma returns_tasks_for_project:
  "prompts \<noteq> [] \<Longrightarrow> returns (tasks_for_project prompts users cap pid pname n tasks)"
  by (induction n arbitrary: tasks)
     (auto intro!: returns_bind returns_return returns_new_task)

lemma tasks_for_projects_margin:
  assumes "prompts \<noteq> []" and "10 \<le> base" and "base \<le> 301"
    and "list_all task_has_margin tasks"
  shows "\<exists>ts w'. tasks_for_projects prompts users cap base ps tasks w = Inr (ts, w')
           \<and> list_all task_has_margin ts"
  using assms(4)
proof (induction ps arbitrary: tasks w)
  case Nil
  then show ?case by (simp add: py_return_def)
next
  case (Cons p ps)
  have "max 20 (base div 2) \<le> min 150 (base * 2)"
    using assms(2,3) by linarith
  from returnsD[OF returns_randint[OF this], of w]
  obtain num w1 where
    num: "randint (max 20 (base div 2)) (min 150 (base * 2)) w = Inr (num, w1)"
    by blast
  from tasks_for_project_margin[OF assms(1) Cons.prems, of users cap "project_id p"
      "case project_name p of None \<Rightarrow> ''Unnamed Project'' | Some n \<Rightarrow> n" "nat num" w1]
  obtain reached ts1 w2 where
    inner: "tasks_for_project prompts users cap (project_id p)
              (case project_name p of None \<Rightarrow> ''Unnamed Project'' | Some n \<Rightarrow> n) (nat num)
              tasks w1 = Inr ((reached, ts1), w2)"
    and m: "list_all task_has_margin ts1"
    by blast
  show ?case
  proof (cases reached)
    case True
    have "tasks_for_projects prompts users cap base (p # ps) tasks w = Inr (ts1, w2)"
      unfolding tasks_for_projects.simps Let_def
      by (rule py_bindI, rule num, rule py_bindI, rule inner) (simp add: True py_return_def)
    with m show ?thesis by blast
  next
    case False
    from Cons.IH[OF m, of w2] obtain ts w' where
      rest: "tasks_for_projects prompts users cap base ps ts1 w2 = Inr (ts, w')"
      and ts: "list_all task_has_margin ts"
      by blast
    have "tasks_for_projects prompts users cap base (p # ps) tasks w = Inr (ts, w')"
      unfolding tasks_for_projects.simps Let_def
      by (rule py_bindI, rule num, rule py_bindI, rule inner) (simp add: False rest)
    with ts show ?thesis by blast
  qed
qed

lemma returns_tasks_for_projects:
  assumes "prompts \<noteq> []" and "10 \<le> base" and "base \<le> 301"
  shows "returns (tasks_for_projects prompts users cap base ps tasks)"
proof (induction ps arbitrary: tasks)
  case Nil
  show ?case by (simp add: returns_return)
next
  case (Cons p ps)
  have range: "max 20 (base div 2) \<le> min 150 (base * 2)"
    using assms(2,3) by linarith
  show ?case
    unfolding tasks_for_projects.simps Let_def
    by (intro returns_bind returns_randint range returns_tasks_for_project assms(1))
       (auto simp: returns_return Cons.IH split: prod.splits)
qed

lemma returns_subtasks_status: "returns (weighted_choice subtasks_STATUS_WEIGHTS)"
  by (rule returns_weighted_choice) (simp_all add: subtasks_STATUS_WEIGHTS_def float_limit_def)

lemma returns_subtasks_generate_description:
  "returns (subtasks_generate_description pname sname)"
  unfolding subtasks_generate_description_def Let_def
  by (intro returns_try returns_generate_text)

lemma returns_generate_subtask_name: "returns generate_subtask_name"
  unfolding generate_subtask_name_def
  by (intro returns_choice) (simp add: FALLBACK_SUBTASK_NAMES_def)

text \<open>
  A subtask is made when the two dates of its parent have two weeks of calendar after
  them: its dates are drawn between them.
\<close>

lemma returns_new_subtask:
  assumes "has_margin pc" and "has_margin pd"
  shows "returns (new_subtask users pid pstatus pname pc pd)"
  unfolding returns_def
proof
  fix w
  obtain status w1 where
    s1: "(if pstatus = ''Done'' then py_return ''Done''
          else weighted_choice subtasks_STATUS_WEIGHTS) w = Inr (status, w1)"
    using returnsD[OF returns_subtasks_status, of w]
    by (cases "pstatus = ''Done''") (auto simp: py_return_def)
  obtain created w2 where s2: "random_date pc pd None w1 = Inr (created, w2)"
    and c: "has_margin created"
    using random_date_margin[OF assms] by blast
  obtain due w3 where s3: "random_date created pd None w2 = Inr (due, w3)"
    and d: "has_margin due"
    using random_date_margin[OF c assms(2)] by blast
  obtain completed_date w4 where
    s4: "(if status = ''Done''
          then py_bind (random_date created due None) (\<lambda>d. py_return (Some d))
          else py_return None) w3 = Inr (completed_date, w4)"
    and k: "has_margin_opt completed_date"
    using random_date_margin[OF c d, of None w3]
    by (cases "status = ''Done''") (auto simp: py_bind_def py_return_def has_margin_opt_def)
  from d have "has_margin_opt (Some due)"
    by (simp add: has_margin_opt_def)
  from ensure_chronology_returns_margin[OF c this k]
  obtain ds w5 where s5: "ensure_chronology created (Some due) completed_date w4 = Inr (ds, w5)"
    by blast
  obtain assignee w6 where s6: "draw_assignee users w5 = Inr (assignee, w6)"
    using returnsD[OF returns_draw_assignee] by blast
  obtain name w7 where s7: "generate_subtask_name w6 = Inr (name, w7)"
    using returnsD[OF returns_generate_subtask_name] by blast
  obtain sid w8 where s8: "generate_uuid (Some ''sub'') w7 = Inr (sid, w8)"
    using returnsD[OF returns_generate_uuid] by blast
  obtain description w9 where
    s9: "subtasks_generate_description pname name w8 = Inr (description, w9)"
    using returnsD[OF returns_subtasks_generate_description] by blast
  show "\<exists>x w'. new_subtask users pid pstatus pname pc pd w = Inr (x, w')"
    unfolding new_subtask_def Let_def
    by (intro exI, (rule py_bindI, rule s1 s2 s3 s4 s5 s6 s7 s8 s9)+, rule py_returnI)
qed

lemma returns_subtasks_for_parent:
  "has_margin pc \<Longrightarrow> has_margin pd
   \<Longrightarrow> returns (subtasks_for_parent users pid pstatus pname pc pd n subs)"
  by (induction n arbitrary: subs)
     (auto intro!: returns_bind returns_return returns_new_subtask)

lemma returns_random_bool_half: "returns (random_bool (1 / 2))"
  by (rule returns_random_bool) simp_all

lemma select_tasks_margin:
  assumes "list_all task_has_margin ts"
  shows "\<exists>sel w'. select_tasks ts w = Inr (sel, w') \<and> list_all task_has_margin sel"
  using assms
proof (induction ts arbitrary: w)
  case Nil
  then show ?case by (simp add: py_return_def)
next
  case (Cons t ts)
  obtain chosen w1 where s1: "random_bool (1 / 2) w = Inr (chosen, w1)"
    using returnsD[OF returns_random_bool_half] by blast
  from Cons obtain rest w2 where s2: "select_tasks ts w1 = Inr (rest, w2)"
    and m: "list_all task_has_margin rest"
    by fastforce
  have "select_tasks (t # ts) w = Inr (if chosen then t # rest else rest, w2)"
    unfolding select_tasks.simps
    by (rule py_bindI, rule s1, rule py_bindI, rule s2, rule py_returnI)
  with Cons.prems m show ?case by auto
qed

lemma returns_select_tasks: "returns (select_tasks ts)"
  by (induction ts) (auto intro!: returns_bind returns_return returns_random_bool)

lemma returns_subtasks_for_parents:
  "list_all task_has_margin parents \<Longrightarrow> returns (subtasks_for_parents users parents subs)"
proof (induction parents arbitrary: subs)
  case Nil
  show ?case by (simp add: returns_return)
next
  case (Cons p ps)
  then show ?case
    by (cases "task_created_at p"; cases "task_due_date p")
       (auto simp: Let_def task_has_margin_def has_margin_opt_def
          intro!: returns_bind returns_randint returns_subtasks_for_parent)
qed

text \<open>
  \<^verbatim>\<open>generate_subtasks\<close> returns for tasks whose dates have two weeks of calendar after
  them, as those of \<^verbatim>\<open>generate_tasks\<close> have.
\<close>

lemma returns_generate_subtasks:
  assumes "list_all task_has_margin tasks"
  shows "returns (generate_subtasks tasks users)"
  unfolding returns_def
proof
  fix w
  show "\<exists>x w'. generate_subtasks tasks users w = Inr (x, w')"
  proof (cases "tasks = []")
    case True
    then show ?thesis by (simp add: generate_subtasks_def py_return_def)
  next
    case False
    obtain sel w1 where s1: "select_tasks tasks (w\<lparr>rng := mt w 42\<rparr>) = Inr (sel, w1)"
      and m: "list_all task_has_margin sel"
      using select_tasks_margin[OF assms] by blast
    from returnsD[OF returns_subtasks_for_parents[OF m]]
    obtain ss w2 where "subtasks_for_parents users sel [] w1 = Inr (ss, w2)"
      by blast
    with False show ?thesis
      by (simp add: generate_subtasks_def py_bind_def set_seed_def s1)
  qed
qed

section \<open>Properties of the task and subtask generators\<close>

lemma ensure_chronology_presence:
  assumes "ensure_chronology c d k w = Inr (ds, w')"
  shows "created_at ds = c" and "due_date ds = None \<longleftrightarrow> d = None"
    and "completed_at ds = None \<longleftrightarrow> k = None"
  using assms
  by (cases d; cases k;
      auto simp: ensure_chronology_defs split: if_splits)+

lemma new_task_completed:
  assumes "new_task prompts users pid pname w = Inr (t, w')"
  shows "task_completed t \<longleftrightarrow> task_completed_at t \<noteq> None"
  using assms unfolding new_task_def Let_def
  by (auto simp: py_Inr dest!: ensure_chronology_presence(3) split: if_splits)

lemma tasks_for_project_completed:
  assumes "tasks_for_project prompts users cap pid pname n tasks w = Inr ((reached, ts), w')"
    and "\<forall>t\<in>set tasks. task_completed t \<longleftrightarrow> task_completed_at t \<noteq> None"
  shows "\<forall>t\<in>set ts. task_completed t \<longleftrightarrow> task_completed_at t \<noteq> None"
  using assms
proof (induction n arbitrary: tasks w)
  case 0
  then show ?case by (simp add: py_Inr)
next
  case (Suc n)
  show ?case
  proof (cases "int (length tasks) \<ge> cap")
    case True
    with Suc.prems show ?thesis by (simp add: py_Inr)
  next
    case False
    with Suc.prems(1) obtain t w1 where t: "new_task prompts users pid pname w = Inr (t, w1)"
      and rest: "tasks_for_project prompts users cap pid pname n (tasks @ [t]) w1 = Inr ((reached, ts), w')"
      by (auto simp: py_Inr)
    from new_task_completed[OF t] Suc.prems(2)
    have "\<forall>t\<in>set (tasks @ [t]). task_completed t \<longleftrightarrow> task_completed_at t \<noteq> None"
      by auto
    from Suc.IH[OF rest this] show ?thesis .
  qed
qed

lemma tasks_for_projects_completed:
  assumes "tasks_for_projects prompts users cap base ps tasks w = Inr (ts, w')"
    and "\<forall>t\<in>set tasks. task_completed t \<longleftrightarrow> task_completed_at t \<noteq> None"
  shows "\<forall>t\<in>set ts. task_completed t \<longleftrightarrow> task_completed_at t \<noteq> None"
  using assms
proof (induction ps arbitrary: tasks w)
  case Nil
  then show ?case by (simp add: py_Inr)
next
  case (Cons p ps)
  from Cons.prems(1) obtain num w1 reached ts1 w2 where
    inner: "tasks_for_project prompts users cap (project_id p)
              (case project_name p of None \<Rightarrow> ''Unnamed Project'' | Some n \<Rightarrow> n) (nat num) tasks w1
            = Inr ((reached, ts1), w2)"
    and rest: "(if reached then py_return ts1
                else tasks_for_projects prompts users cap base ps ts1) w2 = Inr (ts, w')"
    by (auto simp: py_Inr Let_def)
  from tasks_for_project_completed[OF inner Cons.prems(2)]
  have ts1: "\<forall>t\<in>set ts1. task_completed t \<longleftrightarrow> task_completed_at t \<noteq> None" .
  show ?case
  proof (cases reached)
    case True
    with rest ts1 show ?thesis by (simp add: py_Inr)
  next
    case False
    with rest have "tasks_for_projects prompts users cap base ps ts1 w2 = Inr (ts, w')" by simp
    from Cons.IH[OF this ts1] show ?thesis .
  qed
qed

lemma generate_tasks_completed:
  assumes "generate_tasks projects users cap w = Inr (ts, w')"
  shows "\<forall>t\<in>set ts. task_completed t \<longleftrightarrow> task_completed_at t \<noteq> None"
proof -
  from assms obtain prompts base w1 where
    "tasks_for_projects prompts users cap base projects [] w1 = Inr (ts, w')"
    by (auto simp: generate_tasks_def py_Inr Let_def split: if_splits)
  from tasks_for_projects_completed[OF this] show ?thesis by simp
qed


lemma new_subtask_completed:
  assumes "new_subtask users pid pstatus pname pc pd w = Inr (s, w')"
  shows "subtask_completed s \<longleftrightarrow> subtask_completed_at s \<noteq> None"
  using assms unfolding new_subtask_def Let_def
  by (auto simp: py_Inr dest!: ensure_chronology_presence(3) split: if_splits)

lemma subtasks_for_parent_completed:
  assumes "subtasks_for_parent users pid pstatus pname pc pd n subs w = Inr (ss, w')"
    and "\<forall>s\<in>set subs. subtask_completed s \<longleftrightarrow> subtask_completed_at s \<noteq> None"
  shows "\<forall>s\<in>set ss. subtask_completed s \<longleftrightarrow> subtask_completed_at s \<noteq> None"
  using assms
proof (induction n arbitrary: subs w)
  case 0
  then show ?case by (simp add: py_Inr)
next
  case (Suc n)
  from Suc.prems(1) obtain s w1 where s: "new_subtask users pid pstatus pname pc pd w = Inr (s, w1)"
    and rest: "subtasks_for_parent users pid pstatus pname pc pd n (subs @ [s]) w1 = Inr (ss, w')"
    by (auto simp: py_Inr)
  from new_subtask_completed[OF s] Suc.prems(2)
  have "\<forall>s\<in>set (subs @ [s]). subtask_completed s \<longleftrightarrow> subtask_completed_at s \<noteq> None"
    by auto
  from Suc.IH[OF rest this] show ?case .
qed

lemma subtasks_for_parents_completed:
  assumes "subtasks_for_parents users parents subs w = Inr (ss, w')"
    and "\<forall>s\<in>set subs. subtask_completed s \<longleftrightarrow> subtask_completed_at s \<noteq> None"
  shows "\<forall>s\<in>set ss. subtask_completed s \<longleftrightarrow> subtask_completed_at s \<noteq> None"
  using assms
proof (induction parents arbitrary: subs w)
  case Nil
  then show ?case by (simp add: py_Inr)
next
  case (Cons p ps)
  show ?case
  proof (cases "task_created_at p")
    case None
    with Cons.prems(1) have "subtasks_for_parents users ps subs w = Inr (ss, w')"
      by (simp add: Let_def)
    from Cons.IH[OF this Cons.prems(2)] show ?thesis .
  next
    case (Some pc)
    show ?thesis
    proof (cases "task_due_date p")
      case None
      with Some Cons.prems(1) have "subtasks_for_parents users ps subs w = Inr (ss, w')"
        by (simp add: Let_def)
      from Cons.IH[OF this Cons.prems(2)] show ?thesis .
    next
      case due: (Some pd)
      from Cons.prems(1) Some due obtain pstatus pname num w1 subs1 w2 where
        inner: "subtasks_for_parent users (task_id p) pstatus pname pc pd (nat num) subs w1
                = Inr (subs1, w2)"
        and rest: "subtasks_for_parents users ps subs1 w2 = Inr (ss, w')"
        by (auto simp: py_Inr Let_def)
      from Cons.IH[OF rest subtasks_for_parent_completed[OF inner Cons.prems(2)]]
      show ?thesis .
    qed
  qed
qed

lemma generate_subtasks_completed:
  assumes "generate_subtasks tasks users w = Inr (ss, w')"
  shows "\<forall>s\<in>set ss. subtask_completed s \<longleftrightarrow> subtask_completed_at s \<noteq> None"
proof (cases "tasks = []")
  case True
  with assms show ?thesis by (simp add: generate_subtasks_def py_Inr)
next
  case False
  with assms obtain sel w1 where
    "subtasks_for_parents users sel [] w1 = Inr (ss, w')"
    by (auto simp: generate_subtasks_def py_Inr)
  from subtasks_for_parents_completed[OF this] show ?thesis by simp
qed

lemma load_prompts_eq:
  "load_prompts path w =
     (case files w path of None \<Rightarrow> Inl (FileNotFoundError, w)
      | Some ls \<Rightarrow> Inr (map strip (filter (\<lambda>line. strip line \<noteq> []) ls), w))"
  by (simp add: load_prompts_def)

lemma generate_tasks_returns:
  assumes "projects \<noteq> []"
    and "files w ''prompts/task_prompts.txt'' = Some ls"
    and "filter (\<lambda>line. strip line \<noteq> []) ls \<noteq> []"
    and "10 \<le> cap div int (length projects)" and "cap div int (length projects) \<le> 301"
  shows "\<exists>ts. run (generate_tasks projects users cap) w = Inr ts"
proof -
  let ?prompts = "map strip (filter (\<lambda>line. strip line \<noteq> []) ls)"
  let ?base = "max 1 (cap div max 1 (int (length projects)))"
  let ?w = "w\<lparr>rng := mt w 42\<rparr>"
  have len: "max 1 (int (length projects)) = int (length projects)"
    using assms(1) by (cases projects) simp_all
  have base: "10 \<le> ?base" "?base \<le> 301"
    using assms(4,5) by (simp_all add: len)
  have "?prompts \<noteq> []" using assms(3) by simp
  from returnsD[OF returns_tasks_for_projects[OF this base], of users cap projects "[]" ?w]
  obtain ts w' where "tasks_for_projects ?prompts users cap ?base projects [] ?w = Inr (ts, w')"
    by blast
  then have "generate_tasks projects users cap w = Inr (ts, w')"
    using assms(1,2)
    by (simp add: generate_tasks_def py_bind_def set_seed_def load_prompts_eq Let_def)
  then show ?thesis by (simp add: run_def)
qed

lemma run_Inr: "run m w = Inr x \<longleftrightarrow> (\<exists>w'. m w = Inr (x, w'))"
  by (auto simp: run_def split: sum.splits)

lemma generate_tasks_returns_margin:
  assumes "projects \<noteq> []"
    and "files w ''prompts/task_prompts.txt'' = Some ls"
    and "filter (\<lambda>line. strip line \<noteq> []) ls \<noteq> []"
    and "10 \<le> cap div int (length projects)" and "cap div int (length projects) \<le> 301"
  shows "\<exists>ts. run (generate_tasks projects users cap) w = Inr ts \<and> list_all task_has_margin ts"
proof -
  let ?prompts = "map strip (filter (\<lambda>line. strip line \<noteq> []) ls)"
  let ?base = "max 1 (cap div max 1 (int (length projects)))"
  let ?w = "w\<lparr>rng := mt w 42\<rparr>"
  have len: "max 1 (int (length projects)) = int (length projects)"
    using assms(1) by (cases projects) simp_all
  have base: "10 \<le> ?base" "?base \<le> 301"
    using assms(4,5) by (simp_all add: len)
  have "?prompts \<noteq> []" using assms(3) by simp
  from tasks_for_projects_margin[OF this base, of "[]" users cap projects ?w]
  obtain ts w' where "tasks_for_projects ?prompts users cap ?base projects [] ?w = Inr (ts, w')"
    and m: "list_all task_has_margin ts"
    by auto
  then have "generate_tasks projects users cap w = Inr (ts, w')"
    using assms(1,2)
    by (simp add: generate_tasks_def py_bind_def set_seed_def load_prompts_eq Let_def)
  with m show ?thesis by (auto simp: run_def)
qed


lemma randint_range:
  assumes "randint a b w = Inr (x, w')"
  shows "a \<le> x \<and> x \<le> b"
proof (cases "b < a")
  case True
  with assms show ?thesis by (simp add: randint_empty)
next
  case False
  then have "0 \<le> b - a" by simp
  from mod_range[OF this, of "rng w 0"] assms False show ?thesis
    by (auto simp: randint_ok)
qed

lemma tasks_for_project_length:
  assumes "tasks_for_project prompts users cap pid pname n tasks w = Inr ((reached, ts), w')"
    and "int (length tasks) \<le> cap"
  shows "int (length ts) = min cap (int (length tasks) + int n)
         \<and> (reached \<longleftrightarrow> cap < int (length tasks) + int n)"
  using assms
proof (induction n arbitrary: tasks w)
  case 0
  then show ?case by (auto simp: py_Inr)
next
  case (Suc n)
  show ?case
  proof (cases "int (length tasks) \<ge> cap")
    case True
    with Suc.prems show ?thesis by (auto simp: py_Inr)
  next
    case False
    with Suc.prems(1) obtain t w1 where
      rest: "tasks_for_project prompts users cap pid pname n (tasks @ [t]) w1
             = Inr ((reached, ts), w')"
      by (auto simp: py_Inr)
    from False have "int (length (tasks @ [t])) \<le> cap" by simp
    from Suc.IH[OF rest this] show ?thesis by (simp add: add.assoc add.left_commute)
  qed
qed

lemma tasks_for_projects_length:
  assumes "tasks_for_projects prompts users cap base ps tasks w = Inr (ts, w')"
    and "int (length tasks) \<le> cap"
  shows "int (length ts) \<le> cap
         \<and> min cap (int (length tasks) + 20 * int (length ps)) \<le> int (length ts)"
  using assms
proof (induction ps arbitrary: tasks w)
  case Nil
  then show ?case by (simp add: py_Inr)
next
  case (Cons p ps)
  from Cons.prems(1) obtain num w1 reached ts1 w2 where
    num: "randint (max 20 (base div 2)) (min 150 (base * 2)) w = Inr (num, w1)"
    and inner: "tasks_for_project prompts users cap (project_id p)
              (case project_name p of None \<Rightarrow> ''Unnamed Project'' | Some n \<Rightarrow> n) (nat num) tasks w1
            = Inr ((reached, ts1), w2)"
    and rest: "(if reached then py_return ts1
                else tasks_for_projects prompts users cap base ps ts1) w2 = Inr (ts, w')"
    by (auto simp: py_Inr Let_def)
  from randint_range[OF num] have n20: "20 \<le> num" by simp
  from tasks_for_project_length[OF inner Cons.prems(2)] n20
  have len1: "int (length ts1) = min cap (int (length tasks) + num)"
    and reached: "reached \<longleftrightarrow> cap < int (length tasks) + num"
    by simp_all
  show ?case
  proof (cases reached)
    case True
    with rest len1 reached show ?thesis by (simp add: py_Inr)
  next
    case False
    with rest have r: "tasks_for_projects prompts users cap base ps ts1 w2 = Inr (ts, w')" by simp
    from False reached len1 have l1: "int (length ts1) = int (length tasks) + num" by simp
    with False reached have "int (length ts1) \<le> cap" by simp
    from Cons.IH[OF r this] l1 n20 show ?thesis by auto
  qed
qed

lemma generate_tasks_length:
  assumes "run (generate_tasks projects users cap) w = Inr ts"
  shows "int (length ts) \<le> cap \<and> min cap (20 * int (length projects)) \<le> int (length ts)"
proof -
  from assms obtain prompts w1 w' where
    run: "tasks_for_projects prompts users cap (max 1 (cap div max 1 (int (length projects))))
            projects [] w1 = Inr (ts, w')"
    and ne: "projects \<noteq> []"
    by (auto simp: run_Inr generate_tasks_def py_Inr Let_def split: if_splits)
  then obtain p ps where ps: "projects = p # ps" by (cases projects) auto
  from run ps obtain num w2 where
    "randint (max 20 (max 1 (cap div max 1 (int (length projects))) div 2))
             (min 150 (max 1 (cap div max 1 (int (length projects))) * 2)) w1 = Inr (num, w2)"
    by (auto simp: py_Inr Let_def)
  from randint_range[OF this]
  have "20 \<le> 2 * max 1 (cap div max 1 (int (length projects)))" by simp
  then have "10 \<le> cap div max 1 (int (length projects))" by simp
  then have "0 \<le> cap"
    by (smt (verit) div_neg_pos_less0 zero_less_one max.strict_coboundedI1)
  with tasks_for_projects_length[OF run] show ?thesis by simp
qed

text \<open>
  C9: in every list \<^verbatim>\<open>generate_tasks\<close> returns and in every list
  \<^verbatim>\<open>generate_subtasks\<close> returns, the completed flag of an entry is set exactly when
  its completion date is present.
\<close>

theorem completed_iff_completed_at:
  "(run (generate_tasks projects users cap) w = Inr ts \<longrightarrow>
      list_all (\<lambda>t. task_completed t \<longleftrightarrow> task_completed_at t \<noteq> None) ts)
   \<and> (run (generate_subtasks tasks users) w = Inr ss \<longrightarrow>
      list_all (\<lambda>s. subtask_completed s \<longleftrightarrow> subtask_completed_at s \<noteq> None) ss)"
  by (auto simp: run_Inr list_all_iff dest: generate_tasks_completed generate_subtasks_completed)

theorem completed_iff_completed_at_witness:
  "\<exists>ts ss. run (generate_tasks [demo_project 0] [] 10) (world_of []) = Inr ts
     \<and> length ts = 10
     \<and> list_all (\<lambda>t. task_completed t \<longleftrightarrow> task_completed_at t \<noteq> None) ts
     \<and> run (generate_subtasks ts []) (world_of []) = Inr ss
     \<and> list_all (\<lambda>s. subtask_completed s \<longleftrightarrow> subtask_completed_at s \<noteq> None) ss"
proof -
  have "strip ''Implement {feature}.'' \<noteq> []"
    by (simp add: strip_def rstrip_chars_def is_space_def)
  then obtain ts where ts: "run (generate_tasks [demo_project 0] [] 10) (world_of []) = Inr ts"
    and m: "list_all task_has_margin ts"
    using generate_tasks_returns_margin
            [of "[demo_project 0]" "world_of []" "[''Implement {feature}.'']" 10 "[]"]
    by (auto simp: world_of_def)
  obtain ss where ss: "run (generate_subtasks ts []) (world_of []) = Inr ss"
    using returnsD[OF returns_generate_subtasks[OF m], of "[]" "world_of []"]
    by (auto simp: run_Inr)
  have "length ts = 10"
    using generate_tasks_length[OF ts] by simp
  with completed_iff_completed_at[of "[demo_project 0]" "[]" 10 "world_of []" ts ts ss] ts ss
  show ?thesis by blast
qed

section \<open>The range of the fan-out of tasks\<close>

lemma generate_tasks_empty_range:
  assumes "projects \<noteq> []"
    and "files w ''prompts/task_prompts.txt'' = Some ls"
    and "cap div int (length projects) < 10 \<or> 302 \<le> cap div int (length projects)"
  shows "run (generate_tasks projects users cap) w = Inl ValueError"
proof -
  obtain p ps where ps: "projects = p # ps" using assms(1) by (cases projects) auto
  let ?base = "max 1 (cap div max 1 (int (length projects)))"
  have len: "max 1 (int (length projects)) = int (length projects)"
    using assms(1) by (cases projects) simp_all
  have "?base < 10 \<or> 302 \<le> ?base"
    using assms(3) by (auto simp: len)
  then have "min 150 (?base * 2) < max 20 (?base div 2)"
    by linarith
  then have "randint (max 20 (?base div 2)) (min 150 (?base * 2)) w' = Inl (ValueError, w')" for w'
    by (rule randint_empty)
  then show ?thesis
    using assms(1,2) unfolding ps
    by (simp add: run_def generate_tasks_def py_bind_def set_seed_def load_prompts_eq Let_def
          del: max.bounded_iff min.bounded_iff)
qed


text \<open>
  C2, at the input of the demo of \<^verbatim>\<open>tasks.py\<close> (three projects, ten users, a limit of
  1000): the base fan-out is 333, the range of the draw is \<open>randint(166, 150)\<close>, and
  the call raises \<^verbatim>\<open>ValueError\<close> instead of returning tasks. Whenever
  \<^verbatim>\<open>generate_tasks\<close> does return, the number of tasks is at most the limit
  (\<open>generate_tasks_length\<close>).
\<close>

theorem generate_tasks_demo_raises:
  "run (generate_tasks [demo_project 0, demo_project 1, demo_project 2]
          (map demo_user [0..<10]) 1000) (world_of []) = Inl ValueError"
  by (rule generate_tasks_empty_range[where ls = "[''Implement {feature}.'']"])
     (simp_all add: world_of_def)


section \<open>The provenance of the identifiers\<close>

lemma keeps_urandomD: "keeps_urandom m \<Longrightarrow> m w = Inr (x, w') \<Longrightarrow> urandom w' = urandom w"
  unfolding keeps_urandom_def by blast

lemma keeps_return: "keeps_urandom (py_return x)"
  by (simp add: keeps_urandom_def py_Inr)

lemma keeps_raise: "keeps_urandom (py_raise e)"
  by (simp add: keeps_urandom_def py_Inr)

lemma keeps_bind: "keeps_urandom m \<Longrightarrow> (\<And>x. keeps_urandom (f x)) \<Longrightarrow> keeps_urandom (py_bind m f)"
  unfolding keeps_urandom_def py_bind_Inr by metis

lemma keeps_if: "keeps_urandom a \<Longrightarrow> keeps_urandom b \<Longrightarrow> keeps_urandom (if c then a else b)"
  by simp

lemma keeps_next_raw: "keeps_urandom next_raw"
  by (auto simp: keeps_urandom_def next_raw_def)

lemma keeps_set_seed: "keeps_urandom (set_seed s)"
  by (auto simp: keeps_urandom_def set_seed_def)

lemma keeps_load_prompts: "keeps_urandom (load_prompts path)"
  by (auto simp: keeps_urandom_def load_prompts_eq split: option.splits)

lemma keeps_randint: "keeps_urandom (randint a b)"
  unfolding randint_def by (intro keeps_if keeps_raise keeps_bind keeps_next_raw keeps_return)

lemma keeps_random_unit: "keeps_urandom random_unit"
  unfolding random_unit_def by (intro keeps_bind keeps_next_raw keeps_return)

lemma keeps_choice: "keeps_urandom (choice xs)"
  unfolding choice_def by (intro keeps_if keeps_raise keeps_bind keeps_next_raw keeps_return)

lemma keeps_random_date: "keeps_urandom (random_date s e seed)"
  by (auto simp: keeps_urandom_def random_date_eq)

lemma keeps_to_date: "keeps_urandom (to_date d)"
  unfolding to_date_def by (intro keeps_if keeps_return keeps_raise)

lemma keeps_to_date_opt: "keeps_urandom (to_date_opt s)"
  by (cases s) (simp_all add: to_date_opt_def keeps_return keeps_bind keeps_to_date)

lemma keeps_add_days: "keeps_urandom (add_days d n)"
  unfolding add_days_def by (intro keeps_if keeps_return keeps_raise)

lemma keeps_ensure_chronology: "keeps_urandom (ensure_chronology c d k)"
  unfolding ensure_chronology_def Let_def
  by (intro keeps_bind keeps_to_date keeps_to_date_opt keeps_return;
      auto intro!: keeps_bind keeps_return keeps_randint keeps_add_days split: option.splits)

lemma keeps_weighted_choice: "keeps_urandom (weighted_choice choices)"
  by (auto simp: keeps_urandom_def weighted_choice_eq split: if_splits)

lemma keeps_random_bool: "keeps_urandom (random_bool p)"
  unfolding random_bool_def by (intro keeps_if keeps_raise keeps_bind keeps_random_unit keeps_return)

lemma keeps_draw_assignee: "keeps_urandom (draw_assignee users)"
  unfolding draw_assignee_def
  by (intro keeps_if keeps_bind keeps_random_bool keeps_choice keeps_return)

lemma keeps_render_keys: "keeps_urandom (render_keys keys s)"
  by (induction keys arbitrary: s) (auto intro!: keeps_bind keeps_choice keeps_return)

lemma keeps_generate_task_name: "keeps_urandom (generate_task_name prompts)"
  unfolding generate_task_name_def render_prompt_def
  by (intro keeps_bind keeps_choice keeps_return keeps_render_keys)

lemma generate_uuid_eq:
  "generate_uuid prefix w =
     Inr (case prefix of None \<Rightarrow> urandom w 0
          | Some p \<Rightarrow> if p \<noteq> [] then p @ ''_'' @ urandom w 0 else urandom w 0,
          w\<lparr>urandom := (\<lambda>i. urandom w (Suc i))\<rparr>)"
  by (simp add: generate_uuid_def uuid4_def py_bind_def py_return_def)

lemma new_task_id:
  assumes "new_task prompts users pid pname w = Inr (t, w')"
  shows "task_id t = ''task_'' @ urandom w 0"
proof -
  from assms obtain name w1 status w2 priority w3 created w4 due w5 cd w6 ds w7 assignee w8 tid w9
    where s1: "generate_task_name prompts w = Inr (name, w1)"
      and s2: "weighted_choice tasks_STATUS_WEIGHTS w1 = Inr (status, w2)"
      and s3: "weighted_choice PRIORITY_WEIGHTS w2 = Inr (priority, w3)"
      and s4: "random_date (iso_date 2021 1 1) (iso_date 2025 1 1) None w3 = Inr (created, w4)"
      and s5: "random_date created (iso_date 2025 12 31) None w4 = Inr (due, w5)"
      and s6: "(if status = ''Done''
                then py_bind (random_date due (iso_date 2025 12 31) None) (\<lambda>d. py_return (Some d))
                else py_return None) w5 = Inr (cd, w6)"
      and s7: "ensure_chronology created (Some due) cd w6 = Inr (ds, w7)"
      and s8: "draw_assignee users w7 = Inr (assignee, w8)"
      and s9: "generate_uuid (Some ''task'') w8 = Inr (tid, w9)"
      and t: "task_id t = tid"
    unfolding new_task_def Let_def by (auto simp: py_Inr)
  have k6: "keeps_urandom (if status = ''Done''
                then py_bind (random_date due (iso_date 2025 12 31) None) (\<lambda>d. py_return (Some d))
                else py_return None)"
    by (intro keeps_if keeps_bind keeps_random_date keeps_return)
  have "urandom w8 = urandom w"
    using keeps_urandomD[OF keeps_generate_task_name s1]
      keeps_urandomD[OF keeps_weighted_choice s2] keeps_urandomD[OF keeps_weighted_choice s3]
      keeps_urandomD[OF keeps_random_date s4] keeps_urandomD[OF keeps_random_date s5]
      keeps_urandomD[OF k6 s6] keeps_urandomD[OF keeps_ensure_chronology s7]
      keeps_urandomD[OF keeps_draw_assignee s8]
    by simp
  with s9 t show ?thesis by (simp add: generate_uuid_eq)
qed

lemma tasks_for_project_prefix:
  assumes "tasks_for_project prompts users cap pid pname n tasks w = Inr ((reached, ts), w')"
  shows "\<exists>rest. ts = tasks @ rest"
  using assms
proof (induction n arbitrary: tasks w)
  case 0
  then show ?case by (simp add: py_Inr)
next
  case (Suc n)
  show ?case
  proof (cases "int (length tasks) \<ge> cap")
    case True
    with Suc.prems show ?thesis by (simp add: py_Inr)
  next
    case False
    with Suc.prems obtain t w1 where
      "tasks_for_project prompts users cap pid pname n (tasks @ [t]) w1 = Inr ((reached, ts), w')"
      by (auto simp: py_Inr)
    from Suc.IH[OF this] show ?thesis by auto
  qed
qed

lemma tasks_for_projects_prefix:
  assumes "tasks_for_projects prompts users cap base ps tasks w = Inr (ts, w')"
  shows "\<exists>rest. ts = tasks @ rest"
  using assms
proof (induction ps arbitrary: tasks w)
  case Nil
  then show ?case by (simp add: py_Inr)
next
  case (Cons p ps)
  from Cons.prems obtain num w1 reached ts1 w2 where
    inner: "tasks_for_project prompts users cap (project_id p)
              (case project_name p of None \<Rightarrow> ''Unnamed Project'' | Some n \<Rightarrow> n) (nat num) tasks w1
            = Inr ((reached, ts1), w2)"
    and rest: "(if reached then py_return ts1
                else tasks_for_projects prompts users cap base ps ts1) w2 = Inr (ts, w')"
    by (auto simp: py_Inr Let_def)
  from tasks_for_project_prefix[OF inner] obtain r1 where r1: "ts1 = tasks @ r1" by blast
  show ?case
  proof (cases reached)
    case True
    with rest r1 show ?thesis by (simp add: py_Inr)
  next
    case False
    with rest have "tasks_for_projects prompts users cap base ps ts1 w2 = Inr (ts, w')" by simp
    from Cons.IH[OF this] r1 show ?thesis by auto
  qed
qed

lemma tasks_for_project_first:
  assumes "tasks_for_project prompts users cap pid pname n [] w = Inr ((reached, ts), w')"
    and "0 < cap" and "0 < n"
  shows "ts \<noteq> [] \<and> task_id (hd ts) = ''task_'' @ urandom w 0"
proof -
  obtain k where n: "n = Suc k" using assms(3) by (cases n) auto
  from assms(1,2) obtain t w1 where t: "new_task prompts users pid pname w = Inr (t, w1)"
    and rest: "tasks_for_project prompts users cap pid pname k [t] w1 = Inr ((reached, ts), w')"
    unfolding n by (auto simp: py_Inr)
  from tasks_for_project_prefix[OF rest] obtain r where "ts = [t] @ r" by blast
  with new_task_id[OF t] show ?thesis by simp
qed

lemma generate_tasks_first_id:
  assumes "run (generate_tasks projects users cap) w = Inr ts"
  shows "ts \<noteq> [] \<and> task_id (hd ts) = ''task_'' @ urandom w 0"
proof -
  define base where "base = max 1 (cap div max 1 (int (length projects)))"
  from assms obtain u w0 prompts w1 w' where
    seed: "set_seed 42 w = Inr (u, w0)"
    and load: "load_prompts ''prompts/task_prompts.txt'' w0 = Inr (prompts, w1)"
    and run: "tasks_for_projects prompts users cap base projects [] w1 = Inr (ts, w')"
    unfolding base_def
    by (auto simp: run_Inr generate_tasks_def py_Inr Let_def split: if_splits)
  from assms have "min cap (20 * int (length projects)) \<le> int (length ts)"
    and cap: "int (length ts) \<le> cap" and ne: "projects \<noteq> []"
    using generate_tasks_length[OF assms]
    by (auto simp: run_Inr generate_tasks_def py_Inr split: if_splits)
  from ne obtain p ps where ps: "projects = p # ps" by (cases projects) auto
  from run obtain num w2 reached ts1 w3 where
    num: "randint (max 20 (base div 2)) (min 150 (base * 2)) w1 = Inr (num, w2)"
    and inner: "tasks_for_project prompts users cap (project_id p)
              (case project_name p of None \<Rightarrow> ''Unnamed Project'' | Some n \<Rightarrow> n) (nat num) [] w2
            = Inr ((reached, ts1), w3)"
    and rest: "(if reached then py_return ts1
                else tasks_for_projects prompts users cap base ps ts1) w3 = Inr (ts, w')"
    unfolding ps by (auto simp: py_Inr Let_def)
  from randint_range[OF num] have n20: "20 \<le> num" and "20 \<le> 2 * base" by simp_all
  then have "10 \<le> cap div max 1 (int (length projects))" by (simp add: base_def)
  then have "0 < cap"
    by (smt (verit) div_neg_pos_less0 div_0 zero_less_one max.strict_coboundedI1)
  from tasks_for_project_first[OF inner this] n20
  have first: "ts1 \<noteq> [] \<and> task_id (hd ts1) = ''task_'' @ urandom w2 0" by simp
  have "urandom w2 = urandom w"
    using keeps_urandomD[OF keeps_set_seed seed] keeps_urandomD[OF keeps_load_prompts load]
      keeps_urandomD[OF keeps_randint num] by simp
  moreover have "\<exists>r. ts = ts1 @ r"
  proof (cases reached)
    case True
    with rest show ?thesis by (simp add: py_Inr)
  next
    case False
    with rest have "tasks_for_projects prompts users cap base ps ts1 w3 = Inr (ts, w')" by simp
    from tasks_for_projects_prefix[OF this] show ?thesis .
  qed
  ultimately show ?thesis using first by auto
qed

lemma str_nat_0: "str_nat 0 = ''0''"
  by code_simp


text \<open>
  C3, at two runs of \<^verbatim>\<open>generate_tasks\<close> on one project with the limit 10: the two
  worlds have the same generator, stream, text service, name provider and files, and
  differ in the entropy \<^verbatim>\<open>uuid.uuid4()\<close> reads; both runs return, and their outputs
  differ, in the identifier of the first task.
\<close>

theorem generate_tasks_ids_differ:
  "run (generate_tasks [demo_project 0] [] 10) (world_of [])
   \<noteq> run (generate_tasks [demo_project 0] [] 10) ((world_of [])\<lparr>urandom := (\<lambda>i. ''x'')\<rparr>)"
proof -
  have s: "filter (\<lambda>line. strip line \<noteq> []) [''Implement {feature}.''] \<noteq> []"
    by (simp add: strip_def rstrip_chars_def is_space_def)
  obtain ts1 where ts1: "run (generate_tasks [demo_project 0] [] 10) (world_of []) = Inr ts1"
    using generate_tasks_returns[of "[demo_project 0]" "world_of []" "[''Implement {feature}.'']" 10 "[]"] s
    by (auto simp: world_of_def)
  obtain ts2 where ts2: "run (generate_tasks [demo_project 0] [] 10)
                           ((world_of [])\<lparr>urandom := (\<lambda>i. ''x'')\<rparr>) = Inr ts2"
    using generate_tasks_returns[of "[demo_project 0]" "(world_of [])\<lparr>urandom := (\<lambda>i. ''x'')\<rparr>"
        "[''Implement {feature}.'']" 10 "[]"] s
    by (auto simp: world_of_def)
  have "task_id (hd ts1) = ''task_0''"
    using generate_tasks_first_id[OF ts1] by (simp add: world_of_def str_nat_0)
  moreover have "task_id (hd ts2) = ''task_x''"
    using generate_tasks_first_id[OF ts2] by simp
  ultimately have "ts1 \<noteq> ts2" by auto
  with ts1 ts2 show ?thesis by simp
qed

section \<open>Properties of the section generator\<close>

lemma random_date_same: "random_date d d None w = Inr (d, w\<lparr>rng := (\<lambda>i. rng w (Suc i))\<rparr>)"
  by (simp add: random_date_eq)

lemma returns_overwritten_dates: "returns (overwritten_dates pc)"
  unfolding overwritten_dates_def
  by (intro returns_bind returns_random_date returns_return)

lemma new_section_eq:
  "\<exists>sid w'. new_section pid pc idx name w =
     Inr (\<lparr>section_id = sid, section_project_id = pid, section_name = name,
           section_position = idx, section_created_at = pc\<rparr>, w')"
proof (cases pc)
  case None
  then show ?thesis
    by (simp add: new_section_def py_bind_def generate_uuid_eq py_return_def)
next
  case (Some d)
  from returnsD[OF returns_overwritten_dates, of d w] obtain w1 where
    "overwritten_dates d w = Inr ((), w1)" by auto
  with Some show ?thesis
    by (simp add: new_section_def py_bind_def generate_uuid_eq random_date_same py_return_def)
qed

lemma upt_step: "[idx..<idx + Suc n] = idx # [Suc idx..<Suc idx + n]"
  by (simp add: upt_rec)

lemma sections_from_eq:
  "\<exists>new w'. sections_from pid pc idx names secs w = Inr (secs @ new, w')
     \<and> map section_position new = [idx..<idx + length names]
     \<and> map section_name new = names
     \<and> map section_project_id new = replicate (length names) pid
     \<and> map section_created_at new = replicate (length names) pc"
proof (induction names arbitrary: idx secs w)
  case Nil
  show ?case by (simp add: py_return_def)
next
  case (Cons name names)
  from new_section_eq[of pid pc idx name w] obtain sid w1 where
    s: "new_section pid pc idx name w =
          Inr (\<lparr>section_id = sid, section_project_id = pid, section_name = name,
                section_position = idx, section_created_at = pc\<rparr>, w1)"
    by blast
  let ?s = "\<lparr>section_id = sid, section_project_id = pid, section_name = name,
             section_position = idx, section_created_at = pc\<rparr>"
  from Cons.IH[of "Suc idx" "secs @ [?s]" w1] obtain new w' where
    run: "sections_from pid pc (Suc idx) names (secs @ [?s]) w1 = Inr ((secs @ [?s]) @ new, w')"
    and pos: "map section_position new = [Suc idx..<Suc idx + length names]"
    and rest: "map section_name new = names"
      "map section_project_id new = replicate (length names) pid"
      "map section_created_at new = replicate (length names) pc"
    by blast
  have f1: "sections_from pid pc idx (name # names) secs w = Inr (secs @ (?s # new), w')"
    using s run by (simp add: py_bind_def)
  have f2: "map section_position (?s # new) = [idx..<idx + length (name # names)]"
    using pos upt_step[of idx "length names"] by simp
  have f3: "map section_name (?s # new) = name # names"
    and f4: "map section_project_id (?s # new) = replicate (length (name # names)) pid"
    and f5: "map section_created_at (?s # new) = replicate (length (name # names)) pc"
    using rest by simp_all
  show ?case
    using f1 f2 f3 f4 f5
    by - (rule exI[of _ "?s # new"], rule exI[of _ w'], blast)
qed

lemma num_sections_range:
  assumes "(if d1 then randint 5 6 else if d2 then randint 4 5 else randint 3 5) w = Inr (num, w1)"
  shows "nat num \<in> (if d1 then {5, 6} else if d2 then {4, 5} else {3, 4, 5})
         \<and> 0 \<le> num \<and> num \<le> (if d1 then 6 else 5)"
proof -
  consider "d1" | "\<not> d1" "d2" | "\<not> d1" "\<not> d2" by blast
  then show ?thesis
  proof cases
    case 1
    with assms have "randint 5 6 w = Inr (num, w1)" by simp
    from randint_range[OF this] 1 show ?thesis by (auto simp: nat_eq_iff)
  next
    case 2
    with assms have "randint 4 5 w = Inr (num, w1)" by simp
    from randint_range[OF this] 2 show ?thesis by (auto simp: nat_eq_iff)
  next
    case 3
    with assms have "randint 3 5 w = Inr (num, w1)" by simp
    from randint_range[OF this] 3 show ?thesis by (auto simp: nat_eq_iff)
  qed
qed

lemma returns_num_sections:
  "returns (if d1 then randint 5 6 else if d2 then randint 4 5 else randint 3 5)"
  by (simp add: returns_randint)

lemma length_choose_section_template:
  "length (choose_section_template dep) =
     (if dep \<in> {Some ''Engineering'', Some ''Product''} then 6 else 5)"
  by (simp add: choose_section_template_def ENGINEERING_SECTIONS_def
        MARKETING_DESIGN_SECTIONS_def DEFAULT_SECTIONS_def)

lemma sections_for_projects_eq:
  "\<exists>blocks w'. sections_for_projects ps secs w = Inr (secs @ concat blocks, w')
     \<and> list_all2 section_block ps blocks"
proof (induction ps arbitrary: secs w)
  case Nil
  show ?case by (simp add: py_return_def)
next
  case (Cons p ps)
  define dep where "dep = project_department p"
  define d1 where "d1 \<longleftrightarrow> dep \<in> {Some ''Engineering'', Some ''Product''}"
  define d2 where "d2 \<longleftrightarrow> dep \<in> {Some ''Marketing'', Some ''Design''}"
  define template where "template = choose_section_template dep"
  from returnsD[OF returns_num_sections, of d1 d2 w] obtain num w1 where
    num: "(if d1 then randint 5 6 else if d2 then randint 4 5 else randint 3 5) w = Inr (num, w1)"
    by blast
  from num_sections_range[OF num]
  have range: "nat num \<in> (if d1 then {5, 6} else if d2 then {4, 5} else {3, 4, 5})"
    and n0: "0 \<le> num" and hi: "num \<le> (if d1 then 6 else 5)"
    by simp_all
  have len_t: "length template = (if d1 then 6 else 5)"
    unfolding template_def d1_def by (rule length_choose_section_template)
  define chosen where "chosen = slice_to template num"
  have chosen: "chosen = take (nat num) template"
    using n0 by (simp add: chosen_def slice_to_def)
  have "nat num \<le> length template"
    using hi n0 len_t by (simp split: if_splits)
  then have len_c: "length chosen = nat num"
    unfolding chosen by simp
  from sections_from_eq[of "project_id p" "project_created_at p" 1 chosen secs w1]
  obtain b w2 where
    b: "sections_from (project_id p) (project_created_at p) 1 chosen secs w1 = Inr (secs @ b, w2)"
    and bp: "map section_position b = [1..<1 + length chosen]"
      "map section_name b = chosen"
      "map section_project_id b = replicate (length chosen) (project_id p)"
      "map section_created_at b = replicate (length chosen) (project_created_at p)"
    by blast
  have lb: "length b = nat num"
    using bp(2) len_c by (metis length_map)
  have b1: "map section_position b = [1..<Suc (length b)]"
    and b2: "map section_name b = take (length b) template"
    and b3: "map section_project_id b = replicate (length b) (project_id p)"
    and b4: "map section_created_at b = replicate (length b) (project_created_at p)"
    using bp(1,3,4) len_c lb bp(2)[unfolded chosen] by simp_all
  have b5: "length b \<in> (if d1 then {5, 6} else if d2 then {4, 5} else {3, 4, 5})"
    using range unfolding lb .
  have block: "section_block p b"
    unfolding section_block_def dep_def[symmetric] d1_def[symmetric] d2_def[symmetric]
      template_def[symmetric]
    using b1 b2 b3 b4 b5 by blast
  from Cons.IH[of "secs @ b" w2] obtain blocks w' where
    r: "sections_for_projects ps (secs @ b) w2 = Inr ((secs @ b) @ concat blocks, w')"
    and all: "list_all2 section_block ps blocks"
    by blast
  have "sections_for_projects (p # ps) secs w
        = py_bind (if d1 then randint 5 6 else if d2 then randint 4 5 else randint 3 5)
            (\<lambda>num_sections.
               py_bind (sections_from (project_id p) (project_created_at p) 1
                          (slice_to template num_sections) secs)
                 (sections_for_projects ps)) w"
    unfolding sections_for_projects.simps Let_def dep_def d1_def d2_def template_def ..
  also have "\<dots> = Inr (secs @ concat (b # blocks), w')"
    using num b r by (simp add: py_bind_def chosen_def)
  finally show ?case
    using block all by (intro exI[of _ "b # blocks"] exI[of _ w']) simp
qed


text \<open>
  C8: \<^verbatim>\<open>generate_sections\<close> returns for every list of projects, and its output is the
  concatenation of one block of sections for each project, in the order of the projects.
  In each block the positions are \<open>1..N\<close> without a gap and the names are the first
  \<open>N\<close> names of the template of the department; for the department Engineering the
  template is the engineering one and \<open>N\<close> is 5 or 6.
\<close>

theorem generate_sections_blocks:
  "(\<exists>secs blocks w'. generate_sections projects w = Inr (secs, w')
      \<and> secs = concat blocks \<and> list_all2 section_block projects blocks)
   \<and> choose_section_template (Some ''Engineering'') = ENGINEERING_SECTIONS"
proof -
  have "\<exists>secs blocks w'. generate_sections projects w = Inr (secs, w')
          \<and> secs = concat blocks \<and> list_all2 section_block projects blocks"
  proof (cases "projects = []")
    case True
    then show ?thesis by (simp add: generate_sections_def py_return_def)
  next
    case False
    from sections_for_projects_eq[of projects "[]" "w\<lparr>rng := mt w 42\<rparr>"]
    obtain blocks w' where
      "sections_for_projects projects [] (w\<lparr>rng := mt w 42\<rparr>) = Inr (concat blocks, w')"
      and "list_all2 section_block projects blocks"
      by auto
    with False show ?thesis
      by (intro exI[of _ "concat blocks"] exI[of _ blocks] exI[of _ w'])
         (simp add: generate_sections_def py_bind_def set_seed_def)
  qed
  moreover have "choose_section_template (Some ''Engineering'') = ENGINEERING_SECTIONS"
    by (simp add: choose_section_template_def)
  ultimately show ?thesis by blast
qed

section \<open>Properties of the project generator\<close>

lemma choice_eq:
  "xs \<noteq> [] \<Longrightarrow>
   choice xs w = Inr (xs ! (rng w 0 mod length xs), w\<lparr>rng := (\<lambda>i. rng w (Suc i))\<rparr>)"
  by (simp add: choice_def py_bind_def py_return_def next_raw_def)

lemma weighted_choice_label:
  assumes "weighted_choice choices w = Inr (l, w')"
  shows "l \<in> fst ` set choices"
  using assms weighted_choice_index[of choices]
  by (auto simp: weighted_choice_eq split: if_splits)

lemma new_project_fields:
  assumes "new_project tid dep w = Inr (p, w')"
  shows "(project_end_date p \<noteq> None \<longleftrightarrow> project_status p \<in> {''Completed'', ''Active''})"
    and "project_status p \<in> {''Active'', ''Completed'', ''On Hold'', ''Not Started''}"
    and "\<exists>w2. weighted_choice projects_STATUS_WEIGHTS (w\<lparr>rng := (\<lambda>i. rng w (Suc i))\<rparr>)
               = Inr (project_status p, w2)"
proof -
  from assms obtain pname w1 status w2 created w3 start w4 ed w5 ds w6
    where s1: "choice PROJECT_NAMES w = Inr (pname, w1)"
      and s2: "weighted_choice projects_STATUS_WEIGHTS w1 = Inr (status, w2)"
      and s5: "(if status \<in> {''Completed'', ''Active''}
                then py_bind (random_date start (iso_date 2025 12 31) None) (\<lambda>d. py_return (Some d))
                else py_return None) w4 = Inr (ed, w5)"
      and s6: "ensure_chronology created ed None w5 = Inr (ds, w6)"
      and st: "project_status p = status" and en: "project_end_date p = due_date ds"
    unfolding new_project_def by (auto simp: py_Inr)
  from s5 have "ed \<noteq> None \<longleftrightarrow> status \<in> {''Completed'', ''Active''}"
    by (auto simp: py_Inr split: if_splits)
  with ensure_chronology_presence(2)[OF s6] st en
  show "project_end_date p \<noteq> None \<longleftrightarrow> project_status p \<in> {''Completed'', ''Active''}"
    by simp
  from weighted_choice_label[OF s2] st
  show "project_status p \<in> {''Active'', ''Completed'', ''On Hold'', ''Not Started''}"
    by (simp add: projects_STATUS_WEIGHTS_def)
  from s1 have "w1 = w\<lparr>rng := (\<lambda>i. rng w (Suc i))\<rparr>"
    by (simp add: choice_eq PROJECT_NAMES_def)
  with s2 st
  show "\<exists>w2. weighted_choice projects_STATUS_WEIGHTS (w\<lparr>rng := (\<lambda>i. rng w (Suc i))\<rparr>)
               = Inr (project_status p, w2)"
    by auto
qed

lemma projects_for_team_rule:
  assumes "projects_for_team tid dep n ps w = Inr (qs, w')"
    and "list_all end_date_rule ps"
  shows "list_all end_date_rule qs \<and> (\<exists>r. qs = ps @ r)"
  using assms
proof (induction n arbitrary: ps w)
  case 0
  then show ?case by (simp add: py_Inr)
next
  case (Suc n)
  from Suc.prems(1) obtain p w1 where p: "new_project tid dep w = Inr (p, w1)"
    and rest: "projects_for_team tid dep n (ps @ [p]) w1 = Inr (qs, w')"
    by (auto simp: py_Inr)
  from new_project_fields(1,2)[OF p] have "end_date_rule p"
    unfolding end_date_rule_def by blast
  with Suc.prems(2) have "list_all end_date_rule (ps @ [p])" by simp
  from Suc.IH[OF rest this] show ?case by auto
qed

lemma projects_for_teams_rule:
  assumes "projects_for_teams ts ps w = Inr (qs, w')"
    and "list_all end_date_rule ps"
  shows "list_all end_date_rule qs \<and> (\<exists>r. qs = ps @ r)"
  using assms
proof (induction ts arbitrary: ps w)
  case Nil
  then show ?case by (simp add: py_Inr)
next
  case (Cons t ts)
  from Cons.prems(1) obtain dep w1 num w2 ps1 w3 where
    inner: "projects_for_team (team_id t) dep (nat num) ps w2 = Inr (ps1, w3)"
    and rest: "projects_for_teams ts ps1 w3 = Inr (qs, w')"
    by (auto simp: py_Inr)
  from projects_for_team_rule[OF inner Cons.prems(2)]
  have 1: "list_all end_date_rule ps1" and 2: "\<exists>r. ps1 = ps @ r" by simp_all
  from Cons.IH[OF rest 1] 2 show ?case by auto
qed

lemma generate_projects_rule:
  assumes "run (generate_projects teams company) w = Inr ps"
  shows "list_all end_date_rule ps"
proof -
  from assms obtain w1 w' where "projects_for_teams teams [] w1 = Inr (ps, w')"
    by (auto simp: run_Inr generate_projects_def py_Inr split: if_splits)
  from projects_for_teams_rule[OF this] show ?thesis by simp
qed

lemma returns_projects_generate_description: "returns (projects_generate_description pname dep)"
  unfolding projects_generate_description_def Let_def
  by (intro returns_try returns_generate_text)

lemma returns_projects_status: "returns (weighted_choice projects_STATUS_WEIGHTS)"
  by (rule returns_weighted_choice) (simp_all add: projects_STATUS_WEIGHTS_def float_limit_def)

text \<open>
  The dates \<^verbatim>\<open>generate_projects\<close> draws for a project lie between 2021-01-01 and
  2025-12-31, so the corrections of \<^verbatim>\<open>ensure_chronology\<close> stay in the calendar.
\<close>

lemma returns_new_project: "returns (new_project tid dep)"
  unfolding returns_def
proof
  fix w
  have lo: "has_margin (iso_date 2021 1 1)" and e1: "has_margin (iso_date 2025 1 1)"
    and e2: "has_margin (iso_date 2025 6 30)" and hi: "has_margin (iso_date 2025 12 31)"
    unfolding iso_date_values by (simp_all add: has_margin_def date_min_def date_max_def)
  obtain pname w1 where s1: "choice PROJECT_NAMES w = Inr (pname, w1)"
    using returnsD[OF returns_choice, of PROJECT_NAMES w] by (auto simp: PROJECT_NAMES_def)
  obtain status w2 where s2: "weighted_choice projects_STATUS_WEIGHTS w1 = Inr (status, w2)"
    using returnsD[OF returns_projects_status] by blast
  obtain created w3 where
    s3: "random_date (iso_date 2021 1 1) (iso_date 2025 1 1) None w2 = Inr (created, w3)"
    and c: "has_margin created"
    using random_date_margin[OF lo e1] by blast
  obtain start_date w4 where
    s4: "random_date created (iso_date 2025 6 30) None w3 = Inr (start_date, w4)"
    and st: "has_margin start_date"
    using random_date_margin[OF c e2] by blast
  obtain end_date w5 where
    s5: "(if status \<in> {''Completed'', ''Active''}
          then py_bind (random_date start_date (iso_date 2025 12 31) None)
                 (\<lambda>d. py_return (Some d))
          else py_return None) w4 = Inr (end_date, w5)"
    and e: "has_margin_opt end_date"
    using random_date_margin[OF st hi, of None w4]
    by (cases "status \<in> {''Completed'', ''Active''}")
       (auto simp: py_bind_def py_return_def has_margin_opt_def)
  have "has_margin_opt None"
    by (simp add: has_margin_opt_def)
  from ensure_chronology_returns_margin[OF c e this]
  obtain ds w6 where s6: "ensure_chronology created end_date None w5 = Inr (ds, w6)"
    by blast
  obtain pid w7 where s7: "generate_uuid (Some ''proj'') w6 = Inr (pid, w7)"
    using returnsD[OF returns_generate_uuid] by blast
  obtain description w8 where
    s8: "projects_generate_description pname dep w7 = Inr (description, w8)"
    using returnsD[OF returns_projects_generate_description] by blast
  show "\<exists>x w'. new_project tid dep w = Inr (x, w')"
    unfolding new_project_def
    by (intro exI, (rule py_bindI, rule s1 s2 s3 s4 s5 s6 s7 s8)+, rule py_returnI)
qed

lemma returns_projects_for_team: "returns (projects_for_team tid dep n ps)"
  by (induction n arbitrary: ps) (auto intro!: returns_bind returns_return returns_new_project)

lemma returns_department:
  "returns (case dept of Some d \<Rightarrow> if d \<noteq> [] then py_return d else choice get_departments
            | None \<Rightarrow> choice get_departments)"
  by (cases dept)
     (simp_all add: returns_return returns_choice get_departments_def DEPARTMENTS_def)

lemma returns_projects_for_teams: "returns (projects_for_teams ts ps)"
proof (induction ts arbitrary: ps)
  case Nil
  show ?case by (simp add: returns_return)
next
  case (Cons t ts)
  show ?case
    unfolding projects_for_teams.simps
    by (intro returns_bind returns_department returns_randint returns_projects_for_team Cons.IH)
       simp
qed

lemma returns_generate_projects: "teams \<noteq> [] \<Longrightarrow> returns (generate_projects teams company)"
  unfolding generate_projects_def
  by (simp add: returns_bind returns_set_seed returns_projects_for_teams)

lemma generate_projects_first:
  assumes "run (generate_projects (t # ts) company) w = Inr ps"
    and "team_department t = Some d" and "d \<noteq> []"
  shows "ps \<noteq> [] \<and> end_date_rule (hd ps)
         \<and> (\<exists>w2. weighted_choice projects_STATUS_WEIGHTS
                    (w\<lparr>rng := (\<lambda>i. mt w 42 (Suc (Suc i)))\<rparr>) = Inr (project_status (hd ps), w2))"
proof -
  let ?w0 = "w\<lparr>rng := mt w 42\<rparr>"
  let ?w1 = "w\<lparr>rng := (\<lambda>i. mt w 42 (Suc i))\<rparr>"
  from assms obtain w' where run: "projects_for_teams (t # ts) [] ?w0 = Inr (ps, w')"
    by (auto simp: run_Inr generate_projects_def py_Inr set_seed_def)
  have r: "randint 3 12 ?w0 = Inr (3 + int (mt w 42 0) mod 10, ?w1)"
    by (simp add: randint_ok)
  define num where "num = 3 + int (mt w 42 0) mod 10"
  have "3 \<le> num" unfolding num_def by simp
  then obtain k where k: "nat num = Suc k" by (cases "nat num") auto
  from run assms(2,3) r obtain ps1 w3 where
    inner: "projects_for_team (team_id t) d (nat num) [] ?w1 = Inr (ps1, w3)"
    and rest: "projects_for_teams ts ps1 w3 = Inr (ps, w')"
    unfolding num_def by (auto simp: py_bind_def py_return_def split: sum.splits)
  from inner obtain p w4 where p: "new_project (team_id t) d ?w1 = Inr (p, w4)"
    and more: "projects_for_team (team_id t) d k [p] w4 = Inr (ps1, w3)"
    unfolding k by (auto simp: py_Inr)
  from projects_for_team_rule[OF more] new_project_fields(1,2)[OF p]
  obtain r1 where "ps1 = [p] @ r1" by (auto simp: end_date_rule_def)
  moreover from projects_for_teams_rule[OF rest] projects_for_team_rule[OF inner]
  obtain r2 where "ps = ps1 @ r2" by auto
  ultimately have hd: "ps \<noteq> []" "hd ps = p" by simp_all
  from new_project_fields[OF p] have "end_date_rule p"
    unfolding end_date_rule_def by blast
  moreover from new_project_fields(3)[OF p]
  have "\<exists>w2. weighted_choice projects_STATUS_WEIGHTS
               (w\<lparr>rng := (\<lambda>i. mt w 42 (Suc (Suc i)))\<rparr>) = Inr (project_status p, w2)"
    by simp
  ultimately show ?thesis using hd by simp
qed

lemma first_project_active:
  assumes "run (generate_projects [demo_team 0] ''DataWhale'') (world_of []) = Inr ps"
  shows "ps \<noteq> [] \<and> project_status (hd ps) = ''Active'' \<and> project_end_date (hd ps) \<noteq> None"
proof -
  from generate_projects_first[OF assms, of "''Engineering''"]
  obtain w2 where ne: "ps \<noteq> []" and rule: "end_date_rule (hd ps)"
    and "weighted_choice projects_STATUS_WEIGHTS
           ((world_of [])\<lparr>rng := (\<lambda>i. mt (world_of []) 42 (Suc (Suc i)))\<rparr>)
         = Inr (project_status (hd ps), w2)"
    by (auto simp: demo_team_def)
  then have "project_status (hd ps) = ''Active''"
    by (simp add: weighted_choice_eq projects_STATUS_WEIGHTS_def world_of_def bisect.simps
          float_limit_def)
  with ne rule show ?thesis by (simp add: end_date_rule_def)
qed


text \<open>
  C6, as the code has it: in every list \<^verbatim>\<open>generate_projects\<close> returns, a project
  carries an end date exactly when its status is Completed or Active (the guard of the
  generator is \<^verbatim>\<open>status in {"Completed", "Active"}\<close>), and the status is one of Active,
  Completed, On Hold and Not Started; so the projects On Hold and Not Started, and only
  they, carry no end date.
\<close>

theorem generate_projects_end_date_iff:
  "run (generate_projects teams company) w = Inr ps \<longrightarrow>
     list_all (\<lambda>p. (project_end_date p \<noteq> None
                       \<longleftrightarrow> project_status p = ''Completed'' \<or> project_status p = ''Active'')
                   \<and> project_status p \<in> {''Active'', ''Completed'', ''On Hold'', ''Not Started''}) ps"
proof
  assume "run (generate_projects teams company) w = Inr ps"
  from generate_projects_rule[OF this] show
    "list_all (\<lambda>p. (project_end_date p \<noteq> None
                       \<longleftrightarrow> project_status p = ''Completed'' \<or> project_status p = ''Active'')
                   \<and> project_status p \<in> {''Active'', ''Completed'', ''On Hold'', ''Not Started''}) ps"
    by (simp add: end_date_rule_def list_all_iff)
qed


theorem generate_projects_end_date_iff_witness:
  "\<exists>ps. run (generate_projects [demo_team 0] ''DataWhale'') (world_of []) = Inr ps
     \<and> ps \<noteq> []
     \<and> list_all (\<lambda>p. (project_end_date p \<noteq> None
                       \<longleftrightarrow> project_status p = ''Completed'' \<or> project_status p = ''Active'')
                   \<and> project_status p \<in> {''Active'', ''Completed'', ''On Hold'', ''Not Started''}) ps"
proof -
  obtain ps where ps: "run (generate_projects [demo_team 0] ''DataWhale'') (world_of []) = Inr ps"
    using returnsD[OF returns_generate_projects, of "[demo_team 0]" "''DataWhale''" "world_of []"]
    by (auto simp: run_Inr)
  from first_project_active[OF ps] have "ps \<noteq> []" by simp
  with generate_projects_end_date_iff[of "[demo_team 0]" "''DataWhale''" "world_of []" ps] ps show ?thesis by blast
qed

text \<open>
  The claim as written fails: an Active project is not finished and carries an end date.
  For one Engineering team and the stream of zeros, the first project of the run is
  Active and has an end date.
\<close>

theorem generate_projects_active_end_date_counterexample:
  "(case run (generate_projects [demo_team 0] ''DataWhale'') (world_of []) of
      Inr ps \<Rightarrow> ps \<noteq> [] \<and> project_status (hd ps) = ''Active'' \<and> project_end_date (hd ps) \<noteq> None
    | Inl e \<Rightarrow> False)"
proof -
  obtain ps where ps: "run (generate_projects [demo_team 0] ''DataWhale'') (world_of []) = Inr ps"
    using returnsD[OF returns_generate_projects, of "[demo_team 0]" "''DataWhale''" "world_of []"]
    by (auto simp: run_Inr)
  from first_project_active[OF ps] ps show ?thesis by simp
qed

end
